theory Spec2Isabelle
  imports Main "HOL-Library.Sublist"
begin

section \<open>Python strings\<close>

text \<open>
  A Python \<open>str\<close> is modelled as a \<open>string\<close>, one \<open>char\<close> per code point, which
  covers the code points below 256. In that range the regular-expression class \<open>\d\<close>
  is the ten ASCII digits and \<open>.\<close> is every character but the line feed.
\<close>

text \<open>\<open>key in template\<close> on two strings: \<open>key\<close> occurs in \<open>template\<close> as a substring.\<close>

fun str_contains :: "string \<Rightarrow> string \<Rightarrow> bool" where
  "str_contains [] k = (k = [])"
| "str_contains (c # cs) k = (prefix k (c # cs) \<or> str_contains cs k)"

text \<open>
  \<open>s.replace(old, new)\<close>: every non-overlapping occurrence of \<open>old\<close>, found from the
  left, becomes \<open>new\<close>. An empty \<open>old\<close> matches before every character and at the end.
\<close>

function str_replace :: "string \<Rightarrow> string \<Rightarrow> string \<Rightarrow> string" where
  "str_replace [] old new = (if old = [] then new else [])"
| "str_replace (c # cs) old new =
     (if old = [] then new @ c # str_replace cs old new
      else if prefix old (c # cs) then new @ str_replace (drop (length old) (c # cs)) old new
      else c # str_replace cs old new)"
  by pat_completeness auto
termination
  by (relation "measure (\<lambda>(s, old, new). length s)") auto

text \<open>
  \<open>s.split(sep)\<close> for a separator that is not empty (every separator of the program is a
  literal: \<open>'.'\<close>, \<open>'/pages/'\<close>, \<open>'/'\<close>). The result is never the empty list.
\<close>

function str_split :: "string \<Rightarrow> string \<Rightarrow> string list" where
  "str_split [] sep = [[]]"
| "str_split (c # cs) sep =
     (if sep \<noteq> [] \<and> prefix sep (c # cs) then [] # str_split (drop (length sep) (c # cs)) sep
      else (case str_split cs sep of [] \<Rightarrow> [[c]] | p # ps \<Rightarrow> (c # p) # ps))"
  by pat_completeness auto
termination
  by (relation "measure (\<lambda>(s, sep). length s)") auto

text \<open>The number of positions of \<open>t\<close> at which \<open>k\<close> starts.\<close>

definition occurrences :: "string \<Rightarrow> string \<Rightarrow> nat" where
  "occurrences t k = length (filter (\<lambda>i. prefix k (drop i t)) [0 ..< Suc (length t)])"

section \<open>Values, errors and the outside world\<close>

text \<open>
  What \<open>json.load\<close> and \<open>Response.json()\<close> return: \<open>None\<close>, a \<open>bool\<close>, an \<open>int\<close>, a
  \<open>str\<close>, a \<open>list\<close> or a \<open>dict\<close> with string keys (its items in insertion order, every key
  once). Numbers that are not integers are outside the model.
\<close>

datatype json =
    JNull
  | JBool bool
  | JInt int
  | JStr string
  | JList "json list"
  | JDict "(string \<times> json) list"

text \<open>
  The exceptions of the program. \<open>ExceptionUnmatched\<close> is the \<open>Exception\<close> whose message
  is \<open>Unmatched variables found in template: \<close> followed by the list of matches, kept
  here as a list.
\<close>

datatype error =
    ValueError string
  | RuntimeError string
  | Exception string
  | ExceptionUnmatched "string list"
  | KeyError json
  | IndexError
  | TypeError
  | AttributeError
  | HTTPError int
  | RequestException
  | JSONDecodeError
  | OSError

datatype http_method = GET | POST | PUT | DELETE

text \<open>
  One call of \<open>requests\<close>: the keyword arguments the program passes. An upload in
  \<open>files\<close> is (field, filename, content of the opened file, content type).
\<close>

record http_request =
  verb :: http_method
  url :: string
  headers :: "(string \<times> string) list"
  auth :: "(string \<times> string) option"
  params :: "(string \<times> string) list"
  json_payload :: "json option"
  files :: "(string \<times> string \<times> string \<times> string) list"
  form_data :: "(string \<times> string) list"

text \<open>A response: \<open>text\<close> and \<open>content\<close> are both read from \<open>body\<close>.\<close>

record http_response =
  status_code :: int
  body :: string

text \<open>
  Everything the program does to the world, in the order it does it. An action is recorded
  when it is attempted, whether it succeeds or not. Console output is not recorded.
\<close>

datatype event =
    Http http_request
  | MakeDirs string
  | OpenRead string
  | WriteFile string string
  | Glob string
  | Clock

text \<open>
  The world answers each action from the history of the actions before it, so a server
  may change its answer after a delete or an upload. \<open>None\<close> from \<open>http\<close> is a request
  that raised before any response came; \<open>None\<close> from \<open>read_file\<close> is a file that could
  not be opened. \<open>json_loads\<close> is the JSON parser, \<open>prettify\<close> is BeautifulSoup's, and
  \<open>container_str\<close> is \<open>str()\<close> on a list or a dict.
\<close>

record env =
  http :: "event list \<Rightarrow> http_request \<Rightarrow> http_response option"
  makedirs_ok :: "event list \<Rightarrow> string \<Rightarrow> bool"
  read_file :: "event list \<Rightarrow> string \<Rightarrow> string option"
  write_ok :: "event list \<Rightarrow> string \<Rightarrow> bool"
  glob_files :: "event list \<Rightarrow> string \<Rightarrow> string list"
  now_text :: "event list \<Rightarrow> string"
  json_loads :: "string \<Rightarrow> json option"
  prettify :: "string \<Rightarrow> string"
  container_str :: "json \<Rightarrow> string"

type_synonym 'a io = "event list \<Rightarrow> (error + 'a) \<times> event list"

definition io_return :: "'a \<Rightarrow> 'a io" where
  "io_return x = (\<lambda>h. (Inr x, h))"

definition io_raise :: "error \<Rightarrow> 'a io" where
  "io_raise e = (\<lambda>h. (Inl e, h))"

definition io_lift :: "error + 'a \<Rightarrow> 'a io" where
  "io_lift r = (\<lambda>h. (r, h))"

definition io_bind :: "'a io \<Rightarrow> ('a \<Rightarrow> 'b io) \<Rightarrow> 'b io" where
  "io_bind m f = (\<lambda>h. case m h of (Inl e, h') \<Rightarrow> (Inl e, h') | (Inr x, h') \<Rightarrow> f x h')"

text \<open>\<open>requests.get\<close>, \<open>.post\<close>, \<open>.put\<close>, \<open>.delete\<close>.\<close>

definition requests_send :: "env \<Rightarrow> http_request \<Rightarrow> http_response io" where
  "requests_send E rq = (\<lambda>h.
     (case http E h rq of None \<Rightarrow> Inl RequestException | Some r \<Rightarrow> Inr r, h @ [Http rq]))"

text \<open>\<open>Response.raise_for_status()\<close>: an error for every status from 400 to 599.\<close>

definition raise_for_status :: "http_response \<Rightarrow> unit io" where
  "raise_for_status r =
     (if 400 \<le> status_code r \<and> status_code r < 600 then io_raise (HTTPError (status_code r))
      else io_return ())"

definition response_json :: "env \<Rightarrow> http_response \<Rightarrow> error + json" where
  "response_json E r = (case json_loads E (body r) of None \<Rightarrow> Inl JSONDecodeError | Some j \<Rightarrow> Inr j)"

definition open_read :: "env \<Rightarrow> string \<Rightarrow> string io" where
  "open_read E p = (\<lambda>h.
     (case read_file E h p of None \<Rightarrow> Inl OSError | Some c \<Rightarrow> Inr c, h @ [OpenRead p]))"

definition write_file :: "env \<Rightarrow> string \<Rightarrow> string \<Rightarrow> unit io" where
  "write_file E p c = (\<lambda>h.
     (if write_ok E h p then Inr () else Inl OSError, h @ [WriteFile p c]))"

definition makedirs :: "env \<Rightarrow> string \<Rightarrow> unit io" where
  "makedirs E p = (\<lambda>h. (if makedirs_ok E h p then Inr () else Inl OSError, h @ [MakeDirs p]))"

text \<open>\<open>v[k]\<close> with a string \<open>k\<close>: only a dict has string keys.\<close>

fun getitem :: "json \<Rightarrow> string \<Rightarrow> error + json" where
  "getitem (JDict kvs) k = (case map_of kvs k of None \<Rightarrow> Inl (KeyError (JStr k)) | Some v \<Rightarrow> Inr v)"
| "getitem _ k = Inl TypeError"

text \<open>Truth of a value in \<open>if v:\<close>.\<close>

fun truthy :: "json \<Rightarrow> bool" where
  "truthy JNull = False"
| "truthy (JBool b) = b"
| "truthy (JInt n) = (n \<noteq> 0)"
| "truthy (JStr s) = (s \<noteq> [])"
| "truthy (JList xs) = (xs \<noteq> [])"
| "truthy (JDict kvs) = (kvs \<noteq> [])"

text \<open>\<open>str(n)\<close> for an integer.\<close>

fun digits_of :: "nat \<Rightarrow> string" where
  "digits_of n =
     (if n < 10 then [char_of (48 + n)] else digits_of (n div 10) @ [char_of (48 + n mod 10)])"

definition str_of_int :: "int \<Rightarrow> string" where
  "str_of_int i = (if i < 0 then CHR ''-'' # digits_of (nat (- i)) else digits_of (nat i))"

text \<open>\<open>str(v)\<close>, as an f-string formats a value.\<close>

definition py_str :: "env \<Rightarrow> json \<Rightarrow> string" where
  "py_str E v =
     (case v of
        JNull \<Rightarrow> ''None''
      | JBool b \<Rightarrow> (if b then ''True'' else ''False'')
      | JInt i \<Rightarrow> str_of_int i
      | JStr s \<Rightarrow> s
      | _ \<Rightarrow> container_str E v)"

section \<open>Configuration\<close>

record config =
  FIGMA_API_TOKEN :: string
  CONFLUENCE_API_TOKEN :: string
  CONFLUENCE_API_USERNAME :: string
  MISSING_FIGMA_PAGE_PLACEHOLDER :: string
  CONFLUENCE_BASE_URL :: string
  CONFLUENCE_AUTH :: "string \<times> string"

text \<open>\<open>Config()\<close> from the two tokens of the credentials file.\<close>

definition Config :: "string \<Rightarrow> string \<Rightarrow> config" where
  "Config figma_token confluence_token =
     \<lparr> FIGMA_API_TOKEN = figma_token,
       CONFLUENCE_API_TOKEN = confluence_token,
       CONFLUENCE_API_USERNAME = ''service-user.mpt@softwareone.com'',
       MISSING_FIGMA_PAGE_PLACEHOLDER =
         ''https://www.figma.com/design/rHxTpbi2gpbZ4dmVlyeY2S/Object-Diagrams?node-id=14494-411&t=9t14B4asXC7wJTrH-0'',
       CONFLUENCE_BASE_URL = ''https://softwareone.atlassian.net/wiki'',
       CONFLUENCE_AUTH = (''service-user.mpt@softwareone.com'', confluence_token) \<rparr>"

definition TEMP_RENDER_FOLDER :: string where
  "TEMP_RENDER_FOLDER = ''build''"

section \<open>Image renderer\<close>

definition supported_schema_keys :: "string list" where
  "supported_schema_keys =
     [''desktop.grid-view.vendor'',
      ''desktop.grid-view.operations'',
      ''desktop.grid-view.client'',
      ''desktop.details-view.vendor'',
      ''desktop.details-view.operations'',
      ''desktop.details-view.client'',
      ''desktop.infocard-view.vendor'',
      ''desktop.infocard-view.operations'',
      ''desktop.infocard-view.client'',
      ''state-diagram'',
      ''mobile.list-view.vendor'',
      ''mobile.list-view.operations'',
      ''mobile.list-view.client'',
      ''mobile.details-view.vendor'',
      ''mobile.details-view.operations'',
      ''mobile.details-view.client'']"

text \<open>\<open>re.search\<close>: the pattern is tried at every position, from the left.\<close>

fun re_search :: "(string \<Rightarrow> 'a option) \<Rightarrow> string \<Rightarrow> 'a option" where
  "re_search m [] = m []"
| "re_search m (c # cs) = (case m (c # cs) of Some r \<Rightarrow> Some r | None \<Rightarrow> re_search m cs)"

definition strip_prefix :: "string \<Rightarrow> string \<Rightarrow> string option" where
  "strip_prefix p s = (if prefix p s then Some (drop (length p) s) else None)"

definition is_alnum :: "char \<Rightarrow> bool" where
  "is_alnum c = (c \<in> set ''abcdefghijklmnopqrstuvwxyzABCDEFGHIJKLMNOPQRSTUVWXYZ0123456789'')"

definition is_node_char :: "char \<Rightarrow> bool" where
  "is_node_char c = (c \<in> set ''0123456789:-'')"

text \<open>The alternation \<open>(file|proto|design)\<close>: the alternative taken and the rest.\<close>

definition match_variant :: "string \<Rightarrow> (string \<times> string) option" where
  "match_variant s =
     (if prefix ''file'' s then Some (''file'', drop 4 s)
      else if prefix ''proto'' s then Some (''proto'', drop 5 s)
      else if prefix ''design'' s then Some (''design'', drop 6 s)
      else None)"

text \<open>
  \<open>figma\.com/(file|proto|design)/([a-zA-Z0-9]+)\<close> at the start of \<open>s\<close>: groups 1 and 2.
\<close>

definition match_file_key :: "string \<Rightarrow> (string \<times> string) option" where
  "match_file_key s =
     (case strip_prefix ''figma.com/'' s of
        None \<Rightarrow> None
      | Some r \<Rightarrow>
          (case match_variant r of
             None \<Rightarrow> None
           | Some (variant, r') \<Rightarrow>
               (case strip_prefix ''/'' r' of
                  None \<Rightarrow> None
                | Some r'' \<Rightarrow>
                    (if takeWhile is_alnum r'' = [] then None
                     else Some (variant, takeWhile is_alnum r'')))))"

text \<open>\<open>node-id=([\d:-]+)\<close> at the start of \<open>s\<close>: group 1.\<close>

definition match_node_id :: "string \<Rightarrow> string option" where
  "match_node_id s =
     (case strip_prefix ''node-id='' s of
        None \<Rightarrow> None
      | Some r \<Rightarrow> (if takeWhile is_node_char r = [] then None else Some (takeWhile is_node_char r)))"

definition get_frame_id_from_url :: "string \<Rightarrow> string option" where
  "get_frame_id_from_url figma_url =
     (case re_search match_node_id figma_url of
        Some g \<Rightarrow> Some (str_replace g '':'' ''%3A'')
      | None \<Rightarrow> None)"

definition figma_images_request :: "string \<Rightarrow> string \<Rightarrow> http_request" where
  "figma_images_request api_url figma_token =
     \<lparr> verb = GET, url = api_url, headers = [(''X-Figma-Token'', figma_token)], auth = None,
       params = [], json_payload = None, files = [], form_data = [] \<rparr>"

definition plain_get :: "string \<Rightarrow> http_request" where
  "plain_get u =
     \<lparr> verb = GET, url = u, headers = [], auth = None, params = [], json_payload = None,
       files = [], form_data = [] \<rparr>"

definition forbidden_message :: "string \<Rightarrow> string \<Rightarrow> string" where
  "forbidden_message api_url response_text =
     ''Figma API returned 403 Forbidden. This usually means your token is EXPIRED, incorrect, or does not have access to the file.''
     @ [CHR 0x0A] @ ''Request URL: '' @ api_url
     @ [CHR 0x0A] @ ''File key and node id may be incorrect, or the Figma file may not be public/readable.''
     @ [CHR 0x0A] @ ''Response: '' @ response_text"

text \<open>
  \<open>render_figma_png\<close>. The URL comes from the schema and may be any value: \<open>re.search\<close>
  raises \<open>TypeError\<close> on one that is not a string, and \<open>requests.get\<close> refuses an image
  URL that is not a string before it sends anything. Console output is not modelled.
\<close>

definition render_figma_png :: "env \<Rightarrow> json \<Rightarrow> string \<Rightarrow> string \<Rightarrow> unit io" where
  "render_figma_png E figma_url out_filename figma_token =
     (case figma_url of
        JStr u \<Rightarrow>
          (case re_search match_file_key u of
             None \<Rightarrow> io_raise (ValueError ''Could not extract Figma file key from URL'')
           | Some (variant, file_key) \<Rightarrow>
               (case get_frame_id_from_url u of
                  None \<Rightarrow> io_raise (ValueError ''Could not extract node-id from URL'')
                | Some node_id \<Rightarrow>
                    if node_id = [] then io_raise (ValueError ''Could not extract node-id from URL'')
                    else
                      let api_url = ''https://api.figma.com/v1/images/'' @ file_key @ ''?ids='' @ node_id
                                     @ ''&format=png&scale=2''
                      in io_bind (requests_send E (figma_images_request api_url figma_token)) (\<lambda>resp.
                           if status_code resp = 403
                           then io_raise (RuntimeError (forbidden_message api_url (body resp)))
                           else
                             io_bind (raise_for_status resp) (\<lambda>_.
                             io_bind (io_lift (response_json E resp)) (\<lambda>json_result.
                             io_bind (io_lift (getitem json_result ''images'')) (\<lambda>images.
                             io_bind (io_lift (getitem images (str_replace node_id ''-'' '':''))) (\<lambda>image_url.
                               (case image_url of
                                  JStr iu \<Rightarrow>
                                    io_bind (requests_send E (plain_get iu)) (\<lambda>img_resp.
                                    io_bind (raise_for_status img_resp) (\<lambda>_.
                                    write_file E out_filename (body img_resp)))
                                | _ \<Rightarrow> io_raise RequestException))))))))
      | _ \<Rightarrow> io_raise TypeError)"

text \<open>
  The inner loop over the keys of one path, on the pair (\<open>last_key\<close>, \<open>last_value\<close>); the
  \<open>break\<close> leaves both \<open>None\<close>.
\<close>

fun traverse_keys :: "string option \<times> json \<Rightarrow> string list \<Rightarrow> string option \<times> json" where
  "traverse_keys (last_key, last_value) [] = (last_key, last_value)"
| "traverse_keys (last_key, last_value) (key # keys) =
     (case last_value of
        JDict kvs \<Rightarrow>
          (case map_of kvs key of
             Some v \<Rightarrow> traverse_keys (Some key, v) keys
           | None \<Rightarrow> (None, JNull))
      | _ \<Rightarrow> (None, JNull))"

text \<open>One path, from the split to the placeholder: the value to render, or the error.\<close>

definition resolve_path :: "config \<Rightarrow> json \<Rightarrow> string \<Rightarrow> error + json" where
  "resolve_path cfg object_schema path =
     (case traverse_keys (None, object_schema) (str_split path ''.'') of
        (None, last_value) \<Rightarrow> Inl (ValueError (''Reference not found for path: '' @ path))
      | (Some last_key, last_value) \<Rightarrow>
          Inr (if last_value = JNull then JStr (MISSING_FIGMA_PAGE_PLACEHOLDER cfg) else last_value))"

text \<open>\<open>object_name + '-' + ...\<close>: only a string can be extended by a string.\<close>

fun add_str :: "json \<Rightarrow> string \<Rightarrow> error + string" where
  "add_str (JStr s) t = Inr (s @ t)"
| "add_str _ t = Inl TypeError"

text \<open>The loop over the paths, on \<open>rendered_files\<close>.\<close>

fun render_paths ::
  "env \<Rightarrow> config \<Rightarrow> json \<Rightarrow> json \<Rightarrow> string list \<Rightarrow> string list \<Rightarrow> string list io" where
  "render_paths E cfg object_schema object_name [] rendered_files = io_return rendered_files"
| "render_paths E cfg object_schema object_name (path # paths) rendered_files =
     io_bind (io_lift (resolve_path cfg object_schema path)) (\<lambda>last_value.
     io_bind (io_lift (add_str object_name (''-'' @ str_replace path ''.'' ''-'' @ ''.png''))) (\<lambda>filename.
     io_bind (render_figma_png E last_value (TEMP_RENDER_FOLDER @ ''/'' @ filename) (FIGMA_API_TOKEN cfg)) (\<lambda>_.
       render_paths E cfg object_schema object_name paths (rendered_files @ [filename]))))"

definition render_figma_images :: "env \<Rightarrow> config \<Rightarrow> json \<Rightarrow> string list io" where
  "render_figma_images E cfg object_schema =
     io_bind (makedirs E TEMP_RENDER_FOLDER) (\<lambda>_.
     io_bind (io_lift (getitem object_schema ''name'')) (\<lambda>object_name.
       render_paths E cfg object_schema object_name supported_schema_keys []))"

section \<open>Attachment publisher\<close>

definition json_headers :: "(string \<times> string) list" where
  "json_headers = [(''Accept'', ''application/json'')]"

definition delete_request :: "config \<Rightarrow> string \<Rightarrow> http_request" where
  "delete_request cfg delete_url =
     \<lparr> verb = DELETE, url = delete_url, headers = json_headers,
       auth = Some (CONFLUENCE_AUTH cfg), params = [], json_payload = None, files = [],
       form_data = [] \<rparr>"

definition delete_confluence_attachment :: "env \<Rightarrow> config \<Rightarrow> json \<Rightarrow> string \<Rightarrow> unit io" where
  "delete_confluence_attachment E cfg attachment_id status =
     (let delete_url = CONFLUENCE_BASE_URL cfg @ ''/rest/api/content/'' @ py_str E attachment_id
                        @ ''?status='' @ status
      in io_bind (requests_send E (delete_request cfg delete_url)) (\<lambda>delete_response.
           raise_for_status delete_response))"

text \<open>\<open>os.path.basename\<close>: what follows the last slash.\<close>

definition basename :: "string \<Rightarrow> string" where
  "basename p = rev (takeWhile (\<lambda>c. c \<noteq> CHR ''/'') (rev p))"

text \<open>\<open>d.get(k, default)\<close>: only a dict has the method.\<close>

fun dict_get :: "json \<Rightarrow> string \<Rightarrow> json \<Rightarrow> error + json" where
  "dict_get (JDict kvs) k d = (case map_of kvs k of None \<Rightarrow> Inr d | Some v \<Rightarrow> Inr v)"
| "dict_get _ k d = Inl AttributeError"

text \<open>\<open>v[0]\<close>.\<close>

fun getitem0 :: "json \<Rightarrow> error + json" where
  "getitem0 (JList []) = Inl IndexError"
| "getitem0 (JList (x # xs)) = Inr x"
| "getitem0 (JStr []) = Inl IndexError"
| "getitem0 (JStr (c # cs)) = Inr (JStr [c])"
| "getitem0 (JDict kvs) = Inl (KeyError (JInt 0))"
| "getitem0 _ = Inl TypeError"

definition attachment_query :: "config \<Rightarrow> string \<Rightarrow> string \<Rightarrow> http_request" where
  "attachment_query cfg request_url filename =
     \<lparr> verb = GET, url = request_url, headers = json_headers,
       auth = Some (CONFLUENCE_AUTH cfg),
       params = [(''filename'', filename), (''expand'', ''version'')],
       json_payload = None, files = [], form_data = [] \<rparr>"

definition attachment_upload :: "config \<Rightarrow> string \<Rightarrow> string \<Rightarrow> string \<Rightarrow> http_request" where
  "attachment_upload cfg request_url filename file_content =
     \<lparr> verb = POST, url = request_url,
       headers = [(''Accept'', ''application/json''), (''X-Atlassian-Token'', ''no-check'')],
       auth = Some (CONFLUENCE_AUTH cfg), params = [], json_payload = None,
       files = [(''file'', filename, file_content, ''image/png'')],
       form_data = [(''minorEdit'', ''true'')] \<rparr>"

definition upload_image_version_to_confluence ::
  "env \<Rightarrow> config \<Rightarrow> string \<Rightarrow> string \<Rightarrow> json io" where
  "upload_image_version_to_confluence E cfg page_id image_path =
     (let request_url = CONFLUENCE_BASE_URL cfg @ ''/rest/api/content/'' @ page_id @ ''/child/attachment'';
          filename = basename image_path
      in io_bind (open_read E image_path) (\<lambda>file_handle.
         io_bind (requests_send E (attachment_query cfg request_url filename)) (\<lambda>check_response.
         io_bind (raise_for_status check_response) (\<lambda>_.
         io_bind (io_lift (response_json E check_response)) (\<lambda>attachment_result.
         io_bind (io_lift (dict_get attachment_result ''results'' (JList []))) (\<lambda>results.
         io_bind
           (if truthy results
            then io_bind (io_lift (getitem0 results)) (\<lambda>first.
                 io_bind (io_lift (getitem first ''id'')) (\<lambda>attachment_id.
                 io_bind (delete_confluence_attachment E cfg attachment_id ''current'') (\<lambda>_.
                   delete_confluence_attachment E cfg attachment_id ''trashed'')))
            else io_return ()) (\<lambda>_.
         io_bind (requests_send E (attachment_upload cfg request_url filename file_handle)) (\<lambda>response.
         io_bind (raise_for_status response) (\<lambda>_.
           io_lift (response_json E response))))))))))"

section \<open>Page identifier and page fetcher\<close>

text \<open>\<open>xs[i]\<close> on a list, for an index that is not negative.\<close>

definition list_index :: "'a list \<Rightarrow> nat \<Rightarrow> error + 'a" where
  "list_index xs i = (if i < length xs then Inr (xs ! i) else Inl IndexError)"

text \<open>
  \<open>confluence_page_url.split('/pages/')[1].split('/')[0]\<close>; a value that is not a string
  has no \<open>split\<close>.
\<close>

definition page_id_of :: "json \<Rightarrow> error + string" where
  "page_id_of confluence_page_url =
     (case confluence_page_url of
        JStr u \<Rightarrow>
          (case list_index (str_split u ''/pages/'') 1 of
             Inl e \<Rightarrow> Inl e
           | Inr rest \<Rightarrow> list_index (str_split rest ''/'') 0)
      | _ \<Rightarrow> Inl AttributeError)"

definition page_request :: "config \<Rightarrow> string \<Rightarrow> http_request" where
  "page_request cfg request_url =
     \<lparr> verb = GET, url = request_url, headers = json_headers,
       auth = Some (CONFLUENCE_AUTH cfg), params = [], json_payload = None, files = [],
       form_data = [] \<rparr>"

text \<open>
  \<open>download_current_confluence_page\<close> from the line after \<open>page_id\<close> is set.
  BeautifulSoup is given the stored value; a value that is not a string is a \<open>TypeError\<close>.
\<close>

definition download_page :: "env \<Rightarrow> config \<Rightarrow> string \<Rightarrow> unit io" where
  "download_page E cfg page_id =
     (let request_url = CONFLUENCE_BASE_URL cfg @ ''/rest/api/content/'' @ page_id
                         @ ''?expand=body.storage,version''
      in io_bind (requests_send E (page_request cfg request_url)) (\<lambda>resp.
         io_bind (raise_for_status resp) (\<lambda>_.
         io_bind (io_lift (response_json E resp)) (\<lambda>data.
         io_bind (io_lift (getitem data ''body'')) (\<lambda>data_body.
         io_bind (io_lift (getitem data_body ''storage'')) (\<lambda>storage.
         io_bind (io_lift (getitem storage ''value'')) (\<lambda>html_content.
           (case html_content of
              JStr html \<Rightarrow>
                write_file E (TEMP_RENDER_FOLDER @ ''/current-confluence-page-'' @ page_id @ ''.html'')
                  (prettify E html)
            | _ \<Rightarrow> io_raise TypeError))))))))"

definition download_current_confluence_page :: "env \<Rightarrow> config \<Rightarrow> json \<Rightarrow> unit io" where
  "download_current_confluence_page E cfg object_schema =
     io_bind (io_lift (getitem object_schema ''confluence-page'')) (\<lambda>confluence_page_url.
     io_bind (io_lift (page_id_of confluence_page_url)) (\<lambda>page_id.
       download_page E cfg page_id))"

section \<open>Page composer\<close>

text \<open>The loop of \<open>populate_template\<close> over the items of \<open>data\<close>, in their order.\<close>

fun substitute_items :: "string \<Rightarrow> (string \<times> json) list \<Rightarrow> error + string" where
  "substitute_items template [] = Inr template"
| "substitute_items template ((key, value) # items) =
     (if \<not> str_contains template key
      then Inl (Exception (''Key '' @ key @ '' not found in template''))
      else (case (if value = JNull then JStr ''Undefined'' else value) of
              JStr v \<Rightarrow> substitute_items (str_replace template key v) items
            | _ \<Rightarrow> Inl TypeError))"

text \<open>
  \<open>.*?\}\}\<close> at the start of \<open>s\<close>: the shortest run of characters other than the line
  feed that \<open>}}\<close> follows, with the \<open>}}\<close>.
\<close>

fun match_lazy_close :: "string \<Rightarrow> string option" where
  "match_lazy_close [] = None"
| "match_lazy_close (c # cs) =
     (if prefix ''}}'' (c # cs) then Some ''}}''
      else if c = CHR 0x0A then None
      else map_option ((#) c) (match_lazy_close cs))"

text \<open>\<open>\{\{.*?\}\}\<close> at the start of \<open>s\<close>: the text matched.\<close>

definition match_token :: "string \<Rightarrow> string option" where
  "match_token s =
     (case strip_prefix ''{{'' s of
        None \<Rightarrow> None
      | Some r \<Rightarrow> map_option ((@) ''{{'') (match_lazy_close r))"

lemma match_token_length: "match_token s = Some x \<Longrightarrow> 0 < length x"
  by (auto simp: match_token_def split: option.splits)

text \<open>\<open>re.findall\<close> of that pattern: the matches from the left, none overlapping.\<close>

function find_tokens :: "string \<Rightarrow> string list" where
  "find_tokens [] = []"
| "find_tokens (c # cs) =
     (case match_token (c # cs) of
        Some x \<Rightarrow> x # find_tokens (drop (length x) (c # cs))
      | None \<Rightarrow> find_tokens cs)"
  by pat_completeness auto
termination find_tokens
  by (relation "measure length") (auto dest: match_token_length)

definition populate_template :: "string \<Rightarrow> (string \<times> json) list \<Rightarrow> error + string" where
  "populate_template template data =
     (case substitute_items template data of
        Inl e \<Rightarrow> Inl e
      | Inr t \<Rightarrow>
          (let unmatched_vars = find_tokens t
           in if unmatched_vars \<noteq> [] then Inl (ExceptionUnmatched unmatched_vars) else Inr t))"

definition try_bind :: "error + 'a \<Rightarrow> ('a \<Rightarrow> error + 'b) \<Rightarrow> error + 'b" where
  "try_bind r f = (case r of Inl e \<Rightarrow> Inl e | Inr x \<Rightarrow> f x)"

definition WHITE :: string where "WHITE = ''#ffffff''"
definition LIGHT_BLUE :: string where "LIGHT_BLUE = ''#eaf4ff''"
definition LIGHT_RED :: string where "LIGHT_RED = ''#fff4f0''"
definition LIGHT_GREEN :: string where "LIGHT_GREEN = ''#edfff7''"

text \<open>\<open>object_schema[device][view][role]\<close>.\<close>

definition schema_link :: "json \<Rightarrow> string \<Rightarrow> string \<Rightarrow> string \<Rightarrow> error + json" where
  "schema_link object_schema device view role =
     try_bind (getitem object_schema device) (\<lambda>d.
     try_bind (getitem d view) (\<lambda>v. getitem v role))"

text \<open>
  One roles block. The program writes this call five times, once per device and view; the
  items of the dict are evaluated in their order before \<open>populate_template\<close> runs.
\<close>

definition roles_table_section ::
  "env \<Rightarrow> string \<Rightarrow> json \<Rightarrow> json \<Rightarrow> string \<Rightarrow> string \<Rightarrow> error + string" where
  "roles_table_section E roles_table_template object_schema object_name device view =
     try_bind (schema_link object_schema device view ''vendor'') (\<lambda>link1.
     try_bind (schema_link object_schema device view ''operations'') (\<lambda>link2.
     try_bind (schema_link object_schema device view ''client'') (\<lambda>link3.
       populate_template roles_table_template
         [(''{{highlight-colour-column-1}}'', JStr LIGHT_BLUE),
          (''{{highlight-colour-column-2}}'', JStr LIGHT_RED),
          (''{{highlight-colour-column-3}}'', JStr LIGHT_GREEN),
          (''{{filename-column-1}}'',
             JStr (py_str E object_name @ ''-'' @ device @ ''-'' @ view @ ''-vendor.png'')),
          (''{{filename-column-2}}'',
             JStr (py_str E object_name @ ''-'' @ device @ ''-'' @ view @ ''-operations.png'')),
          (''{{filename-column-3}}'',
             JStr (py_str E object_name @ ''-'' @ device @ ''-'' @ view @ ''-client.png'')),
          (''{{figma-link-column-1}}'', link1),
          (''{{figma-link-column-2}}'', link2),
          (''{{figma-link-column-3}}'', link3)])))"

definition clock :: "env \<Rightarrow> string io" where
  "clock E = (\<lambda>h. (Inr (now_text E h), h @ [Clock]))"

section \<open>Page publisher\<close>

definition content_headers :: "(string \<times> string) list" where
  "content_headers = [(''Content-Type'', ''application/json''), (''Accept'', ''application/json'')]"

definition content_get :: "config \<Rightarrow> string \<Rightarrow> http_request" where
  "content_get cfg api_url =
     \<lparr> verb = GET, url = api_url, headers = content_headers,
       auth = Some (CONFLUENCE_AUTH cfg), params = [], json_payload = None, files = [],
       form_data = [] \<rparr>"

definition content_put :: "config \<Rightarrow> string \<Rightarrow> json \<Rightarrow> http_request" where
  "content_put cfg api_url payload =
     \<lparr> verb = PUT, url = api_url, headers = content_headers,
       auth = Some (CONFLUENCE_AUTH cfg), params = [], json_payload = Some payload, files = [],
       form_data = [] \<rparr>"

text \<open>\<open>current_version + 1\<close>: an \<open>int\<close>, or a \<open>bool\<close> counted as 0 or 1.\<close>

fun add_one :: "json \<Rightarrow> error + json" where
  "add_one (JInt n) = Inr (JInt (n + 1))"
| "add_one (JBool b) = Inr (JInt ((if b then 1 else 0) + 1))"
| "add_one _ = Inl TypeError"

definition page_payload :: "string \<Rightarrow> json \<Rightarrow> string \<Rightarrow> json \<Rightarrow> json" where
  "page_payload page_id current_title new_content next_version =
     JDict [(''id'', JStr page_id),
            (''type'', JStr ''page''),
            (''title'', current_title),
            (''body'', JDict [(''storage'',
               JDict [(''value'', JStr new_content), (''representation'', JStr ''storage'')])]),
            (''version'', JDict [(''number'', next_version)])]"

definition update_page_content :: "env \<Rightarrow> config \<Rightarrow> string \<Rightarrow> string \<Rightarrow> json io" where
  "update_page_content E cfg page_id new_content =
     (let api_url = CONFLUENCE_BASE_URL cfg @ ''/rest/api/content/'' @ page_id
      in io_bind (requests_send E (content_get cfg api_url)) (\<lambda>resp.
         io_bind (raise_for_status resp) (\<lambda>_.
         io_bind (io_lift (try_bind (response_json E resp) (\<lambda>j. getitem j ''title''))) (\<lambda>current_title.
         io_bind (io_lift (try_bind (response_json E resp) (\<lambda>j.
                    try_bind (getitem j ''version'') (\<lambda>v. getitem v ''number'')))) (\<lambda>current_version.
         io_bind (io_lift (add_one current_version)) (\<lambda>next_version.
         io_bind (requests_send E
                    (content_put cfg api_url (page_payload page_id current_title new_content next_version)))
           (\<lambda>put_response.
         io_bind (raise_for_status put_response) (\<lambda>_.
           io_lift (response_json E put_response)))))))))"

section \<open>One object, and the run\<close>

fun upload_all :: "env \<Rightarrow> config \<Rightarrow> string \<Rightarrow> string list \<Rightarrow> unit io" where
  "upload_all E cfg page_id [] = io_return ()"
| "upload_all E cfg page_id (rendered_file # rendered_files) =
     io_bind (upload_image_version_to_confluence E cfg page_id
                (TEMP_RENDER_FOLDER @ ''/'' @ rendered_file)) (\<lambda>_.
       upload_all E cfg page_id rendered_files)"

text \<open>\<open>update_confluence_page\<close> from the line after \<open>page_id\<close> is set.\<close>

definition publish_page :: "env \<Rightarrow> config \<Rightarrow> string \<Rightarrow> string list \<Rightarrow> json \<Rightarrow> unit io" where
  "publish_page E cfg page_id rendered_files object_schema =
     io_bind (io_lift (getitem object_schema ''name'')) (\<lambda>object_name.
     io_bind (upload_all E cfg page_id rendered_files) (\<lambda>_.
     io_bind (open_read E ''confluence-templates/object-page.html'') (\<lambda>page_template.
     io_bind (open_read E ''confluence-templates/roles-table.html'') (\<lambda>roles_table_template.
     io_bind (open_read E ''confluence-templates/single-table.html'') (\<lambda>single_table_template.
     io_bind (io_lift
       (try_bind (getitem object_schema ''state-diagram'') (\<lambda>link.
          populate_template single_table_template
            [(''{{highlight-colour}}'', JStr WHITE),
             (''{{filename}}'', JStr (py_str E object_name @ ''-state-diagram.png'')),
             (''{{figma-link}}'', link)]))) (\<lambda>state_diagram.
     io_bind (io_lift (roles_table_section E roles_table_template object_schema object_name
                ''desktop'' ''grid-view'')) (\<lambda>grid_view_table_section.
     io_bind (io_lift (roles_table_section E roles_table_template object_schema object_name
                ''desktop'' ''details-view'')) (\<lambda>details_view_table_section.
     io_bind (io_lift (roles_table_section E roles_table_template object_schema object_name
                ''desktop'' ''infocard-view'')) (\<lambda>desktop_infocard_view_table_section.
     io_bind (io_lift (roles_table_section E roles_table_template object_schema object_name
                ''mobile'' ''list-view'')) (\<lambda>mobile_list_view_table_section.
     io_bind (io_lift (roles_table_section E roles_table_template object_schema object_name
                ''mobile'' ''details-view'')) (\<lambda>mobile_details_view_table_section.
     io_bind (clock E) (\<lambda>last_updated.
     io_bind (io_lift
       (populate_template page_template
          [(''{{state-diagram}}'', JStr state_diagram),
           (''{{desktop-grid-table-section}}'', JStr grid_view_table_section),
           (''{{desktop-details-table-section}}'', JStr details_view_table_section),
           (''{{desktop-infocard-table-section}}'', JStr desktop_infocard_view_table_section),
           (''{{mobile-list-table-section}}'', JStr mobile_list_view_table_section),
           (''{{mobile-details-table-section}}'', JStr mobile_details_view_table_section),
           (''{{last-updated}}'', JStr last_updated)])) (\<lambda>page.
     io_bind (write_file E (TEMP_RENDER_FOLDER @ ''/confluence-page-updated-'' @ page_id @ ''.html'') page)
       (\<lambda>_.
     io_bind (update_page_content E cfg page_id page) (\<lambda>_.
       io_return ())))))))))))))))"

definition update_confluence_page :: "env \<Rightarrow> config \<Rightarrow> string list \<Rightarrow> json \<Rightarrow> unit io" where
  "update_confluence_page E cfg rendered_files object_schema =
     io_bind (io_lift (getitem object_schema ''confluence-page'')) (\<lambda>confluence_page_url.
     io_bind (io_lift (page_id_of confluence_page_url)) (\<lambda>page_id.
       publish_page E cfg page_id rendered_files object_schema))"

definition get_all_schema_files :: "env \<Rightarrow> string list io" where
  "get_all_schema_files E =
     (\<lambda>h. (Inr (glob_files E h ''./schemas/*.json''), h @ [Glob ''./schemas/*.json'']))"

text \<open>The body of the second loop of \<open>main\<close>, for one schema file.\<close>

definition process_schema_file :: "env \<Rightarrow> config \<Rightarrow> string \<Rightarrow> unit io" where
  "process_schema_file E cfg schema_file =
     io_bind (open_read E schema_file) (\<lambda>f.
     io_bind (io_lift (case json_loads E f of None \<Rightarrow> Inl JSONDecodeError | Some j \<Rightarrow> Inr j))
       (\<lambda>object_schema.
     io_bind (render_figma_images E cfg object_schema) (\<lambda>rendered_files.
     io_bind (download_current_confluence_page E cfg object_schema) (\<lambda>_.
       update_confluence_page E cfg rendered_files object_schema))))"

fun process_all :: "env \<Rightarrow> config \<Rightarrow> string list \<Rightarrow> unit io" where
  "process_all E cfg [] = io_return ()"
| "process_all E cfg (schema_file # schema_files) =
     io_bind (process_schema_file E cfg schema_file) (\<lambda>_. process_all E cfg schema_files)"

text \<open>\<open>main\<close>; its first loop only prints the file names.\<close>

definition main :: "env \<Rightarrow> config \<Rightarrow> unit io" where
  "main E cfg = io_bind (get_all_schema_files E) (\<lambda>all_schema_files.
     process_all E cfg all_schema_files)"

section \<open>Reference notions and sample data\<close>

text \<open>
  The notions the specification uses to state its properties, written down on their own so
  that the functions above can be compared with them, and the worlds and schemas of the
  examples.
\<close>

text \<open>The value a nested mapping holds under a list of keys, if every key is there.\<close>

fun nested_lookup :: "json \<Rightarrow> string list \<Rightarrow> json option" where
  "nested_lookup v [] = Some v"
| "nested_lookup (JDict kvs) (k # ks) =
     (case map_of kvs k of None \<Rightarrow> None | Some v \<Rightarrow> nested_lookup v ks)"
| "nested_lookup _ (k # ks) = None"

text \<open>
  A world in which every file operation succeeds and every request is answered with status
  200 and one body, which the parser reads as the \<open>images\<close> mapping of the node
  \<open>14494:411\<close>.
\<close>

definition stub_env :: env where
  "stub_env =
     \<lparr> http = (\<lambda>h rq. Some \<lparr> status_code = 200, body = ''{images: {14494:411: https://img/1}}'' \<rparr>),
       makedirs_ok = (\<lambda>h p. True),
       read_file = (\<lambda>h p. Some []),
       write_ok = (\<lambda>h p. True),
       glob_files = (\<lambda>h p. []),
       now_text = (\<lambda>h. ''Jan 01, 2025 at 00:00:00''),
       json_loads = (\<lambda>s. if s = ''{images: {14494:411: https://img/1}}''
                          then Some (JDict [(''images'', JDict [(''14494:411'', JStr ''https://img/1'')])])
                          else None),
       prettify = (\<lambda>s. s),
       container_str = (\<lambda>v. []) \<rparr>"

definition roles :: "json \<Rightarrow> json" where
  "roles v = JDict [(''vendor'', v), (''operations'', v), (''client'', v)]"

definition sample_schema :: "json \<Rightarrow> json" where
  "sample_schema v =
     JDict [(''name'', JStr ''Foo''),
            (''confluence-page'', JStr ''https://softwareone.atlassian.net/wiki/spaces/X/pages/12345/Foo''),
            (''state-diagram'', v),
            (''desktop'', JDict [(''grid-view'', roles v), (''details-view'', roles v), (''infocard-view'', roles v)]),
            (''mobile'', JDict [(''list-view'', roles v), (''details-view'', roles v)])]"

definition partial_schema :: json where
  "partial_schema =
     JDict [(''name'', JStr ''Foo''),
            (''desktop'', JDict [(''grid-view'', JDict [(''vendor'', JNull)])])]"

text \<open>The text a value is rendered as: a string as it is, null as \<open>Undefined\<close>.\<close>

fun value_text :: "json \<Rightarrow> string" where
  "value_text (JStr s) = s"
| "value_text _ = ''Undefined''"

definition text_or_null :: "json \<Rightarrow> bool" where
  "text_or_null v = (v = JNull \<or> (\<exists>s. v = JStr s))"

text \<open>The template after the items were substituted one after another.\<close>

definition substituted :: "string \<Rightarrow> (string \<times> json) list \<Rightarrow> string" where
  "substituted template items = foldl (\<lambda>t (k, v). str_replace t k (value_text v)) template items"

text \<open>Every key occurs in the template as the items before it left it.\<close>

definition keys_present :: "string \<Rightarrow> (string \<times> json) list \<Rightarrow> bool" where
  "keys_present template items =
     (\<forall>i < length items. sublist (fst (items ! i)) (substituted template (take i items)))"

text \<open>
  A token of the shape \<open>{{...}}\<close>, as the specification words it: two opening braces,
  any run of characters, two closing braces.
\<close>

definition has_token :: "string \<Rightarrow> bool" where
  "has_token s = (\<exists>before inner after. s = before @ ''{{'' @ inner @ ''}}'' @ after)"

text \<open>A token of that shape that holds no line feed between its braces.\<close>

definition has_line_token :: "string \<Rightarrow> bool" where
  "has_line_token s =
     (\<exists>before inner after. s = before @ ''{{'' @ inner @ ''}}'' @ after \<and> CHR 0x0A \<notin> set inner)"

definition single_table :: string where
  "single_table = ''<td bgcolor={{highlight-colour}}><a href={{figma-link}}>{{filename}}</a></td>''"

definition single_items :: "json \<Rightarrow> (string \<times> json) list" where
  "single_items link =
     [(''{{highlight-colour}}'', JStr WHITE),
      (''{{filename}}'', JStr ''Foo-state-diagram.png''),
      (''{{figma-link}}'', link)]"

text \<open>A request that raises, or whose response \<open>raise_for_status\<close> turns into an error.\<close>

definition request_fails :: "env \<Rightarrow> event list \<Rightarrow> http_request \<Rightarrow> bool" where
  "request_fails E h rq =
     (case http E h rq of
        None \<Rightarrow> True
      | Some r \<Rightarrow> 400 \<le> status_code r \<and> status_code r < 600)"

text \<open>
  A wiki that answers every request with status 200: an attachment query finds one
  attachment, a page query gives the page, anything else an empty object.
\<close>

definition wiki_env :: env where
  "wiki_env =
     \<lparr> http = (\<lambda>h rq. Some \<lparr> status_code = 200,
                 body = (if verb rq = GET \<and> params rq \<noteq> [] then ''attachments''
                         else if verb rq = GET then ''page'' else ''done'') \<rparr>),
       makedirs_ok = (\<lambda>h p. True),
       read_file = (\<lambda>h p. Some ''PNG''),
       write_ok = (\<lambda>h p. True),
       glob_files = (\<lambda>h p. []),
       now_text = (\<lambda>h. ''Jan 01, 2025 at 00:00:00''),
       json_loads = (\<lambda>s.
          if s = ''attachments'' then Some (JDict [(''results'', JList [JDict [(''id'', JStr ''att77'')]])])
          else if s = ''page'' then
            Some (JDict [(''title'', JStr ''Foo''),
                         (''version'', JDict [(''number'', JInt 7)]),
                         (''body'', JDict [(''storage'', JDict [(''value'', JStr ''<p>old</p>'')])])])
          else if s = ''done'' then Some (JDict [])
          else None),
       prettify = (\<lambda>s. s),
       container_str = (\<lambda>v. []) \<rparr>"

text \<open>
  The URL holds \<open>figma.com/\<close>, one of the three path variants, a slash and an alphanumeric
  key.
\<close>

definition has_file_key :: "string \<Rightarrow> bool" where
  "has_file_key u =
     (\<exists>before variant key rest.
        u = before @ ''figma.com/'' @ variant @ ''/'' @ key @ rest \<and>
        variant \<in> {''file'', ''proto'', ''design''} \<and>
        key \<noteq> [] \<and> (\<forall>c \<in> set key. is_alnum c))"

text \<open>The URL holds \<open>node-id=\<close> and then digits, colons or hyphens.\<close>

definition has_node_id :: "string \<Rightarrow> bool" where
  "has_node_id u =
     (\<exists>before g rest.
        u = before @ ''node-id='' @ g @ rest \<and> g \<noteq> [] \<and> (\<forall>c \<in> set g. is_node_char c))"

text \<open>A computation that only adds actions to the history.\<close>

definition appends :: "'a io \<Rightarrow> bool" where
  "appends m = (\<forall>h. \<exists>more. snd (m h) = h @ more)"

text \<open>
  A rendering API that answers every request with status 200 and an \<open>images\<close> mapping
  that holds one image URL, under the node identifier \<open>1:2\<close>.
\<close>

definition images_env :: env where
  "images_env =
     \<lparr> http = (\<lambda>h rq. Some \<lparr> status_code = 200, body = ''{images: {1:2: https://img/1}}'' \<rparr>),
       makedirs_ok = (\<lambda>h p. True),
       read_file = (\<lambda>h p. Some []),
       write_ok = (\<lambda>h p. True),
       glob_files = (\<lambda>h p. []),
       now_text = (\<lambda>h. ''Jan 01, 2025 at 00:00:00''),
       json_loads = (\<lambda>s. if s = ''{images: {1:2: https://img/1}}''
                          then Some (JDict [(''images'', JDict [(''1:2'', JStr ''https://img/1'')])])
                          else None),
       prettify = (\<lambda>s. s),
       container_str = (\<lambda>v. []) \<rparr>"

definition unpaged_schema :: json where
  "unpaged_schema =
     JDict [(''name'', JStr ''Foo''),
            (''confluence-page'', JStr ''https://softwareone.atlassian.net/wiki/display/X/Foo'')]"

text \<open>
  A world with two schema files: the first holds only a name, the second is complete. A
  file's content is its own path, and the parser knows the two paths.
\<close>

definition schemas_env :: env where
  "schemas_env =
     \<lparr> http = (\<lambda>h rq. Some \<lparr> status_code = 200, body = ''{}'' \<rparr>),
       makedirs_ok = (\<lambda>h p. True),
       read_file = (\<lambda>h p. Some p),
       write_ok = (\<lambda>h p. True),
       glob_files = (\<lambda>h p. [''./schemas/a.json'', ''./schemas/b.json'']),
       now_text = (\<lambda>h. ''Jan 01, 2025 at 00:00:00''),
       json_loads = (\<lambda>s.
          if s = ''./schemas/a.json'' then Some (JDict [(''name'', JStr ''Foo'')])
          else if s = ''./schemas/b.json'' then Some (sample_schema JNull)
          else None),
       prettify = (\<lambda>s. s),
       container_str = (\<lambda>v. []) \<rparr>"

section \<open>Basic facts\<close>

lemma str_contains_sublist: "str_contains t k = sublist k t"
proof (induction t)
  case Nil
  then show ?case by simp
next
  case (Cons c cs)
  then show ?case by (simp add: sublist_Cons_right)
qed

lemma str_replace_absent:
  "\<not> str_contains t k \<Longrightarrow> str_replace t k v = t"
proof (induction t k v rule: str_replace.induct)
  case (1 old new)
  then show ?case by simp
next
  case (2 c cs old new)
  then show ?case by auto
qed

lemma str_split_not_Nil: "str_split s sep \<noteq> []"
  by (induction s sep rule: str_split.induct) (auto split: list.splits)

lemma str_replace_char:
  "str_replace s [a] [b] = map (\<lambda>c. if c = a then b else c) s"
  by (induction s) auto

lemma io_bind_Inr: "m h = (Inr x, h') \<Longrightarrow> io_bind m f h = f x h'"
  by (simp add: io_bind_def)

lemma io_bind_Inl: "m h = (Inl e, h') \<Longrightarrow> io_bind m f h = (Inl e, h')"
  by (simp add: io_bind_def)

lemma io_bind_lift_Inr: "io_bind (io_lift (Inr x)) f h = f x h"
  by (simp add: io_bind_def io_lift_def)

lemma send_then_check_trace:
  "snd (io_bind (requests_send E rq) (\<lambda>response.
          io_bind (raise_for_status response) (\<lambda>_. io_lift (g response))) h) = h @ [Http rq]"
  by (simp add: io_bind_def requests_send_def raise_for_status_def io_raise_def io_return_def
      io_lift_def split: option.splits)

lemma appends_return: "appends (io_return x)"
  by (simp add: appends_def io_return_def)

lemma appends_raise: "appends (io_raise e)"
  by (simp add: appends_def io_raise_def)

lemma appends_lift: "appends (io_lift r)"
  by (simp add: appends_def io_lift_def)

lemma appends_send: "appends (requests_send E rq)"
  by (simp add: appends_def requests_send_def)

lemma appends_write: "appends (write_file E p c)"
  by (simp add: appends_def write_file_def)

lemma appends_check: "appends (raise_for_status r)"
  by (simp add: raise_for_status_def appends_raise appends_return)

lemma appends_bind:
  assumes "appends m" and "\<And>x. appends (f x)"
  shows "appends (io_bind m f)"
  unfolding appends_def
proof
  fix h
  from assms(1) obtain more where m: "snd (m h) = h @ more" unfolding appends_def by blast
  show "\<exists>more. snd (io_bind m f h) = h @ more"
  proof (cases "m h")
    case (Pair r h1)
    with m have h1: "h1 = h @ more" by simp
    show ?thesis
    proof (cases r)
      case (Inl e)
      with Pair h1 show ?thesis by (simp add: io_bind_def)
    next
      case (Inr x)
      from assms(2) [of x] obtain more' where "snd (f x h1) = h1 @ more'"
        unfolding appends_def by blast
      with Pair Inr h1 show ?thesis by (simp add: io_bind_def)
    qed
  qed
qed

lemma first_request:
  assumes "\<And>x. appends (f x)"
  shows "take (Suc (length h)) (snd (io_bind (requests_send E rq) f h)) = h @ [Http rq]"
proof (cases "http E h rq")
  case None
  then show ?thesis by (simp add: io_bind_def requests_send_def)
next
  case (Some r)
  from assms [of r] obtain more where "snd (f r (h @ [Http rq])) = (h @ [Http rq]) @ more"
    unfolding appends_def by blast
  with Some show ?thesis by (simp add: io_bind_def requests_send_def)
qed

section \<open>Substituting one pair twice (C8)\<close>

lemma str_replace_by_itself: "v = k \<Longrightarrow> str_replace s k v = s"
proof (induction s k v rule: str_replace.induct)
  case (1 old new)
  then show ?case by simp
next
  case (2 c cs old new)
  show ?case
  proof (cases "old = []")
    case True
    with 2 show ?thesis by simp
  next
    case False
    show ?thesis
    proof (cases "prefix old (c # cs)")
      case True
      then have "old @ drop (length old) (c # cs) = c # cs"
        by (metis append_eq_conv_conj prefixE)
      with 2 False True show ?thesis by simp
    next
      case np: False
      with 2 False show ?thesis by simp
    qed
  qed
qed

lemma str_replace_length_ge:
  "length k \<le> length v \<Longrightarrow> length s \<le> length (str_replace s k v)"
proof (induction s k v rule: str_replace.induct)
  case (1 old new)
  then show ?case by simp
next
  case (2 c cs old new)
  show ?case
  proof (cases "old = []")
    case True
    with 2 show ?thesis by simp
  next
    case False
    show ?thesis
    proof (cases "prefix old (c # cs)")
      case True
      then have "length (c # cs) = length old + length (drop (length old) (c # cs))"
        by (metis append_eq_conv_conj length_append prefixE)
      with 2 False True show ?thesis by simp
    next
      case np: False
      with 2 False show ?thesis by simp
    qed
  qed
qed

lemma str_replace_length_le:
  "length v \<le> length k \<Longrightarrow> k \<noteq> [] \<Longrightarrow> length (str_replace s k v) \<le> length s"
proof (induction s k v rule: str_replace.induct)
  case (1 old new)
  then show ?case by simp
next
  case (2 c cs old new)
  show ?case
  proof (cases "prefix old (c # cs)")
    case True
    then have "length (c # cs) = length old + length (drop (length old) (c # cs))"
      by (metis append_eq_conv_conj length_append prefixE)
    with 2 True show ?thesis by simp
  next
    case np: False
    with 2 show ?thesis by simp
  qed
qed

lemma str_replace_changes:
  assumes "str_contains s k" and "v \<noteq> k"
  shows "str_replace s k v \<noteq> s"
  using assms
proof (induction s k v rule: str_replace.induct)
  case (1 old new)
  then show ?case by auto
next
  case (2 c cs old new)
  show ?case
  proof (cases "old = []")
    case True
    with "2.prems" have "new \<noteq> []" by simp
    moreover have "length cs \<le> length (str_replace cs [] new)"
      by (rule str_replace_length_ge) simp
    ultimately have "length (c # cs) < length (str_replace (c # cs) [] new)"
      by (cases new) auto
    with True show ?thesis by (metis less_irrefl)
  next
    case False
    show ?thesis
    proof (cases "prefix old (c # cs)")
      case True
      let ?d = "drop (length old) (c # cs)"
      from True have s: "c # cs = old @ ?d"
        by (metis append_eq_conv_conj prefixE)
      have r: "str_replace (c # cs) old new = new @ str_replace ?d old new"
        using False True by simp
      show ?thesis
      proof
        assume "str_replace (c # cs) old new = c # cs"
        with r s have eq: "new @ str_replace ?d old new = old @ ?d" by simp
        show False
        proof (cases "length new" "length old" rule: linorder_cases)
          case less
          then have "length (str_replace ?d old new) \<le> length ?d"
            using False by (intro str_replace_length_le) simp_all
          with less have "length (new @ str_replace ?d old new) < length (old @ ?d)" by simp
          with eq show False by simp
        next
          case equal
          with eq have "new = old" by simp
          with "2.prems" show False by simp
        next
          case greater
          then have "length ?d \<le> length (str_replace ?d old new)"
            by (intro str_replace_length_ge) simp
          with greater have "length (old @ ?d) < length (new @ str_replace ?d old new)" by simp
          with eq show False by simp
        qed
      qed
    next
      case np: False
      with "2.prems" have "str_contains cs old" by simp
      with "2.IH"(3) False np "2.prems" have "str_replace cs old new \<noteq> cs" by simp
      with False np show ?thesis by simp
    qed
  qed
qed

lemma str_replace_fixed: "(str_replace s k v = s) = (\<not> str_contains s k \<or> v = k)"
  using str_replace_changes str_replace_by_itself str_replace_absent by metis

text \<open>
  C8, as the specification states it, fails: the value may hold the key again, and then
  the second substitution rewrites the value itself.
\<close>

theorem replace_twice_counterexample:
  "occurrences ''<a href={{figma-link}}>'' ''{{figma-link}}'' = 1 \<and>
   str_replace (str_replace ''<a href={{figma-link}}>'' ''{{figma-link}}'' ''x{{figma-link}}'')
       ''{{figma-link}}'' ''x{{figma-link}}''
     \<noteq> str_replace ''<a href={{figma-link}}>'' ''{{figma-link}}'' ''x{{figma-link}}''"
  by (simp add: occurrences_def upt_rec)

text \<open>
  C8 (amended): when the key occurs exactly once in the text, substituting the same pair a
  second time changes nothing exactly when the key no longer occurs in the substituted
  text or the value is the key itself.
\<close>

theorem replace_twice_same:
  assumes "occurrences t k = 1"
  shows "(str_replace (str_replace t k v) k v = str_replace t k v)
           = (\<not> str_contains (str_replace t k v) k \<or> v = k)"
  by (rule str_replace_fixed)

theorem replace_twice_same_witness:
  "occurrences ''<a href={{figma-link}}>'' ''{{figma-link}}'' = 1 \<and>
   \<not> str_contains (str_replace ''<a href={{figma-link}}>'' ''{{figma-link}}'' ''https://f/1'')
       ''{{figma-link}}'' \<and>
   str_replace (str_replace ''<a href={{figma-link}}>'' ''{{figma-link}}'' ''https://f/1'')
       ''{{figma-link}}'' ''https://f/1''
     = str_replace ''<a href={{figma-link}}>'' ''{{figma-link}}'' ''https://f/1''"
proof -
  have h1: "occurrences ''<a href={{figma-link}}>'' ''{{figma-link}}'' = 1"
    by (simp add: occurrences_def upt_rec)
  have h2: "\<not> str_contains (str_replace ''<a href={{figma-link}}>'' ''{{figma-link}}'' ''https://f/1'')
       ''{{figma-link}}''"
    by simp
  from replace_twice_same [OF h1, of "''https://f/1''"] h1 h2 show ?thesis by blast
qed

section \<open>Resolving a schema path (C1)\<close>

lemma traverse_keys_lookup:
  "traverse_keys (lk, v) ks =
     (case nested_lookup v ks of
        None \<Rightarrow> (None, JNull)
      | Some r \<Rightarrow> (if ks = [] then lk else Some (last ks), r))"
proof (induction ks arbitrary: lk v)
  case Nil
  then show ?case by simp
next
  case (Cons k ks)
  show ?case
  proof (cases v)
    case (JDict kvs)
    then show ?thesis using Cons by (cases "map_of kvs k") (auto split: option.splits)
  qed simp_all
qed

lemma resolve_path_lookup:
  "resolve_path cfg object_schema path =
     (case nested_lookup object_schema (str_split path ''.'') of
        None \<Rightarrow> Inl (ValueError (''Reference not found for path: '' @ path))
      | Some v \<Rightarrow> Inr (if v = JNull then JStr (MISSING_FIGMA_PAGE_PLACEHOLDER cfg) else v))"
  unfolding resolve_path_def traverse_keys_lookup
  by (simp add: str_split_not_Nil split: option.splits)

lemma render_paths_append:
  "render_paths E cfg s n (pre @ post) acc h =
     (case render_paths E cfg s n pre acc h of
        (Inl e, h') \<Rightarrow> (Inl e, h')
      | (Inr acc', h') \<Rightarrow> render_paths E cfg s n post acc' h')"
proof (induction pre arbitrary: acc h)
  case Nil
  then show ?case by (simp add: io_return_def)
next
  case (Cons p pre)
  show ?case
    by (simp add: io_bind_def io_lift_def Cons split: sum.splits prod.splits)
qed

lemma placeholder_file_key: "re_search match_file_key (MISSING_FIGMA_PAGE_PLACEHOLDER (Config a b)) = Some (''design'', ''rHxTpbi2gpbZ4dmVlyeY2S'')"
  by (simp add: Config_def match_file_key_def strip_prefix_def match_variant_def is_alnum_def)

lemma placeholder_node_id: "get_frame_id_from_url (MISSING_FIGMA_PAGE_PLACEHOLDER (Config a b)) = Some ''14494-411''"
  by (simp add: Config_def get_frame_id_from_url_def match_node_id_def strip_prefix_def is_node_char_def)

text \<open>
  C1. For every object schema and every path (so for each of the 16 supported ones): when
  the traversal of the nested mapping hits an absent segment, the step of the loop for
  that path ends \<open>render_figma_images\<close> with the \<open>ValueError\<close> whose message is
  \<open>Reference not found for path: \<close> and the path, and nothing more is done; this is
  the result of \<open>render_figma_images\<close> when the paths before it were rendered. When
  every segment resolves and the final value is null, the value becomes the configured
  placeholder URL and the step goes on to render that URL.
\<close>

theorem reference_not_found_or_placeholder:
  "(nested_lookup object_schema (str_split path ''.'') = None \<longrightarrow>
      resolve_path cfg object_schema path = Inl (ValueError (''Reference not found for path: '' @ path)) \<and>
      render_paths E cfg object_schema object_name (path # paths) rendered_files h
        = (Inl (ValueError (''Reference not found for path: '' @ path)), h) \<and>
      (supported_schema_keys = before @ path # paths \<and>
       makedirs_ok E h0 TEMP_RENDER_FOLDER \<and>
       getitem object_schema ''name'' = Inr object_name \<and>
       render_paths E cfg object_schema object_name before [] (h0 @ [MakeDirs TEMP_RENDER_FOLDER])
         = (Inr rendered_files, h) \<longrightarrow>
       render_figma_images E cfg object_schema h0
         = (Inl (ValueError (''Reference not found for path: '' @ path)), h)))
   \<and> (nested_lookup object_schema (str_split path ''.'') = Some JNull \<longrightarrow>
      resolve_path cfg object_schema path = Inr (JStr (MISSING_FIGMA_PAGE_PLACEHOLDER cfg)) \<and>
      render_paths E cfg object_schema (JStr N) (path # paths) rendered_files h
        = io_bind
            (render_figma_png E (JStr (MISSING_FIGMA_PAGE_PLACEHOLDER cfg))
               (TEMP_RENDER_FOLDER @ ''/'' @ N @ ''-'' @ str_replace path ''.'' ''-'' @ ''.png'')
               (FIGMA_API_TOKEN cfg))
            (\<lambda>_. render_paths E cfg object_schema (JStr N) paths
                   (rendered_files @ [N @ ''-'' @ str_replace path ''.'' ''-'' @ ''.png''])) h)"
proof (intro conjI impI)
  assume a: "nested_lookup object_schema (str_split path ''.'') = None"
  show r: "resolve_path cfg object_schema path = Inl (ValueError (''Reference not found for path: '' @ path))"
    by (simp add: resolve_path_lookup a)
  show p: "render_paths E cfg object_schema object_name (path # paths) rendered_files h
        = (Inl (ValueError (''Reference not found for path: '' @ path)), h)"
    by (simp add: r io_bind_def io_lift_def)
  assume b: "supported_schema_keys = before @ path # paths \<and>
       makedirs_ok E h0 TEMP_RENDER_FOLDER \<and>
       getitem object_schema ''name'' = Inr object_name \<and>
       render_paths E cfg object_schema object_name before [] (h0 @ [MakeDirs TEMP_RENDER_FOLDER])
         = (Inr rendered_files, h)"
  then have k: "supported_schema_keys = before @ path # paths" by simp
  from b show "render_figma_images E cfg object_schema h0
         = (Inl (ValueError (''Reference not found for path: '' @ path)), h)"
    unfolding render_figma_images_def k
    by (simp add: io_bind_def io_lift_def makedirs_def render_paths_append p del: render_paths.simps)
next
  assume a: "nested_lookup object_schema (str_split path ''.'') = Some JNull"
  show r: "resolve_path cfg object_schema path = Inr (JStr (MISSING_FIGMA_PAGE_PLACEHOLDER cfg))"
    by (simp add: resolve_path_lookup a)
  show "render_paths E cfg object_schema (JStr N) (path # paths) rendered_files h
        = io_bind
            (render_figma_png E (JStr (MISSING_FIGMA_PAGE_PLACEHOLDER cfg))
               (TEMP_RENDER_FOLDER @ ''/'' @ N @ ''-'' @ str_replace path ''.'' ''-'' @ ''.png'')
               (FIGMA_API_TOKEN cfg))
            (\<lambda>_. render_paths E cfg object_schema (JStr N) paths
                   (rendered_files @ [N @ ''-'' @ str_replace path ''.'' ''-'' @ ''.png''])) h"
    by (simp add: r io_bind_def io_lift_def)
qed

lemma sample_keys_split: "supported_schema_keys = [''desktop.grid-view.vendor''] @ ''desktop.grid-view.operations'' # drop 2 supported_schema_keys"
  by (simp add: supported_schema_keys_def)

lemma partial_schema_absent: "nested_lookup partial_schema (str_split ''desktop.grid-view.operations'' ''.'') = None"
  by (simp add: partial_schema_def)

lemma partial_schema_null: "nested_lookup partial_schema (str_split ''desktop.grid-view.vendor'' ''.'') = Some JNull"
  by (simp add: partial_schema_def)

lemma partial_schema_first_path: "render_paths stub_env (Config ''t1'' ''t2'') partial_schema (JStr ''Foo'') [''desktop.grid-view.vendor''] [] [MakeDirs TEMP_RENDER_FOLDER] 
  = (Inr [''Foo-desktop-grid-view-vendor.png''],
     [MakeDirs ''build'',
      Http (figma_images_request ''https://api.figma.com/v1/images/rHxTpbi2gpbZ4dmVlyeY2S?ids=14494-411&format=png&scale=2'' ''t1''),
      Http (plain_get ''https://img/1''),
      WriteFile ''build/Foo-desktop-grid-view-vendor.png'' ''{images: {14494:411: https://img/1}}''])"
  by code_simp

theorem reference_not_found_or_placeholder_witness:
  "nested_lookup partial_schema (str_split ''desktop.grid-view.operations'' ''.'') = None \<and>
   nested_lookup partial_schema (str_split ''desktop.grid-view.vendor'' ''.'') = Some JNull \<and>
   resolve_path (Config ''t1'' ''t2'') partial_schema ''desktop.grid-view.vendor''
     = Inr (JStr (MISSING_FIGMA_PAGE_PLACEHOLDER (Config ''t1'' ''t2''))) \<and>
   render_figma_images stub_env (Config ''t1'' ''t2'') partial_schema []
     = (Inl (ValueError ''Reference not found for path: desktop.grid-view.operations''),
     [MakeDirs ''build'',
      Http (figma_images_request ''https://api.figma.com/v1/images/rHxTpbi2gpbZ4dmVlyeY2S?ids=14494-411&format=png&scale=2'' ''t1''),
      Http (plain_get ''https://img/1''),
      WriteFile ''build/Foo-desktop-grid-view-vendor.png'' ''{images: {14494:411: https://img/1}}''])"
proof -
  have name: "getitem partial_schema ''name'' = Inr (JStr ''Foo'')"
    by (simp add: partial_schema_def)
  have mk: "makedirs_ok stub_env [] TEMP_RENDER_FOLDER"
    by (simp add: stub_env_def)
  note t = reference_not_found_or_placeholder
    [where object_schema = partial_schema and cfg = "Config ''t1'' ''t2''" and E = stub_env]
  from t [where path = "''desktop.grid-view.operations''" and before = "[''desktop.grid-view.vendor'']"
      and paths = "drop 2 supported_schema_keys" and ?h0.0 = "[]" and object_name = "JStr ''Foo''"
      and rendered_files = "[''Foo-desktop-grid-view-vendor.png'']"] sample_keys_split partial_schema_absent partial_schema_first_path name mk
  have a: "render_figma_images stub_env (Config ''t1'' ''t2'') partial_schema []
     = (Inl (ValueError ''Reference not found for path: desktop.grid-view.operations''),
     [MakeDirs ''build'',
      Http (figma_images_request ''https://api.figma.com/v1/images/rHxTpbi2gpbZ4dmVlyeY2S?ids=14494-411&format=png&scale=2'' ''t1''),
      Http (plain_get ''https://img/1''),
      WriteFile ''build/Foo-desktop-grid-view-vendor.png'' ''{images: {14494:411: https://img/1}}''])"
    by simp
  from t [where path = "''desktop.grid-view.vendor''"] partial_schema_null
  have b: "resolve_path (Config ''t1'' ''t2'') partial_schema ''desktop.grid-view.vendor''
     = Inr (JStr (MISSING_FIGMA_PAGE_PLACEHOLDER (Config ''t1'' ''t2'')))"
    by simp
  from a b partial_schema_absent partial_schema_null show ?thesis by simp
qed

section \<open>Rendered file names (C2)\<close>

lemma render_paths_names:
  assumes "render_paths E cfg s n ps acc h = (Inr r, h')"
  shows "(ps \<noteq> [] \<longrightarrow> (\<exists>N. n = JStr N)) \<and>
         (\<forall>N. n = JStr N \<longrightarrow> r = acc @ map (\<lambda>p. N @ ''-'' @ str_replace p ''.'' ''-'' @ ''.png'') ps)"
  using assms
proof (induction ps arbitrary: acc h)
  case Nil
  then show ?case by (simp add: io_return_def)
next
  case (Cons p ps)
  from Cons.prems obtain N where n: "n = JStr N"
    by (cases n) (auto simp: io_bind_def io_lift_def split: sum.splits prod.splits)
  from Cons.prems n obtain h1 where
    "render_paths E cfg s n ps (acc @ [N @ ''-'' @ str_replace p ''.'' ''-'' @ ''.png'']) h1 = (Inr r, h')"
    by (auto simp: io_bind_def io_lift_def split: sum.splits prod.splits)
  from Cons.IH [OF this] n show ?case by simp
qed

text \<open>
  C2. When \<open>render_figma_images\<close> succeeds, the schema's name is a string \<open>N\<close> and the
  result is one file name per supported path, in the order of \<open>supported_schema_keys\<close>:
  \<open>N\<close>, a hyphen, the path with every dot turned into a hyphen, and \<open>.png\<close>. There are
  16 of them, and for the name \<open>Foo\<close> the first is \<open>Foo-desktop-grid-view-vendor.png\<close>.
\<close>

theorem rendered_filenames:
  assumes "render_figma_images E cfg object_schema h = (Inr rendered_files, h')"
  shows "\<exists>N. getitem object_schema ''name'' = Inr (JStr N) \<and>
           rendered_files =
             map (\<lambda>path. N @ ''-'' @ map (\<lambda>c. if c = CHR ''.'' then CHR ''-'' else c) path @ ''.png'')
               supported_schema_keys \<and>
           length rendered_files = 16 \<and>
           (N = ''Foo'' \<longrightarrow> rendered_files ! 0 = ''Foo-desktop-grid-view-vendor.png'')"
proof -
  from assms obtain n h1 where
    n: "getitem object_schema ''name'' = Inr n" and
    r: "render_paths E cfg object_schema n supported_schema_keys [] h1 = (Inr rendered_files, h')"
    by (auto simp: render_figma_images_def io_bind_def io_lift_def split: sum.splits prod.splits)
  have ne: "supported_schema_keys \<noteq> []" by (simp add: supported_schema_keys_def)
  from render_paths_names [OF r] ne obtain N where
    N: "n = JStr N" and
    rf: "rendered_files = map (\<lambda>p. N @ ''-'' @ str_replace p ''.'' ''-'' @ ''.png'') supported_schema_keys"
    by auto
  have len: "length supported_schema_keys = 16" by (simp add: supported_schema_keys_def)
  have first: "supported_schema_keys ! 0 = ''desktop.grid-view.vendor''"
    by (simp add: supported_schema_keys_def)
  have "rendered_files ! 0 = N @ ''-desktop-grid-view-vendor.png''"
    unfolding rf using len first by (simp add: str_replace_char)
  with n N rf len show ?thesis
    by (auto simp: str_replace_char)
qed

lemma sample_run:
  "fst (render_figma_images stub_env (Config ''t1'' ''t2'') (sample_schema JNull) []) =
   Inr [''Foo-desktop-grid-view-vendor.png'',
      ''Foo-desktop-grid-view-operations.png'',
      ''Foo-desktop-grid-view-client.png'',
      ''Foo-desktop-details-view-vendor.png'',
      ''Foo-desktop-details-view-operations.png'',
      ''Foo-desktop-details-view-client.png'',
      ''Foo-desktop-infocard-view-vendor.png'',
      ''Foo-desktop-infocard-view-operations.png'',
      ''Foo-desktop-infocard-view-client.png'',
      ''Foo-state-diagram.png'',
      ''Foo-mobile-list-view-vendor.png'',
      ''Foo-mobile-list-view-operations.png'',
      ''Foo-mobile-list-view-client.png'',
      ''Foo-mobile-details-view-vendor.png'',
      ''Foo-mobile-details-view-operations.png'',
      ''Foo-mobile-details-view-client.png'']"
  by code_simp

theorem rendered_filenames_witness:
  "\<exists>files h'.
     render_figma_images stub_env (Config ''t1'' ''t2'') (sample_schema JNull) [] = (Inr files, h') \<and>
     getitem (sample_schema JNull) ''name'' = Inr (JStr ''Foo'') \<and>
     files = map (\<lambda>path. ''Foo'' @ ''-'' @ map (\<lambda>c. if c = CHR ''.'' then CHR ''-'' else c) path @ ''.png'')
               supported_schema_keys \<and>
     length files = 16 \<and>
     files ! 0 = ''Foo-desktop-grid-view-vendor.png''"
proof -
  obtain files h' where
    run: "render_figma_images stub_env (Config ''t1'' ''t2'') (sample_schema JNull) [] = (Inr files, h')"
    using sample_run by (cases "render_figma_images stub_env (Config ''t1'' ''t2'') (sample_schema JNull) []") auto
  have name: "getitem (sample_schema JNull) ''name'' = Inr (JStr ''Foo'')"
    by (simp add: sample_schema_def)
  from rendered_filenames [OF run] name run show ?thesis
    by auto
qed

section \<open>Filling a template (C3)\<close>

lemma keys_present_Nil: "keys_present t []"
  by (simp add: keys_present_def)

lemma keys_present_Cons:
  "keys_present t ((k, v) # items) =
     (sublist k t \<and> keys_present (str_replace t k (value_text v)) items)"
proof -
  have "(\<forall>i < Suc n. P i) = (P 0 \<and> (\<forall>i < n. P (Suc i)))" for n and P :: "nat \<Rightarrow> bool"
    using less_Suc_eq_0_disj by auto
  then show ?thesis
    by (simp add: keys_present_def substituted_def)
qed

lemma substituted_Cons:
  "substituted t ((k, v) # items) = substituted (str_replace t k (value_text v)) items"
  by (simp add: substituted_def)

lemma substitute_items_present:
  assumes "\<forall>(k, v) \<in> set items. text_or_null v" and "keys_present t items"
  shows "substitute_items t items = Inr (substituted t items)"
  using assms
proof (induction items arbitrary: t)
  case Nil
  then show ?case by (simp add: substituted_def)
next
  case (Cons kv items)
  obtain k v where kv: "kv = (k, v)" by (cases kv)
  from Cons.prems kv have p: "sublist k t" "keys_present (str_replace t k (value_text v)) items"
    and tv: "text_or_null v" and rest: "\<forall>(k, v) \<in> set items. text_or_null v"
    by (auto simp: keys_present_Cons)
  from tv have step: "substitute_items t ((k, v) # items) = substitute_items (str_replace t k (value_text v)) items"
    using p(1) by (auto simp: text_or_null_def str_contains_sublist)
  show ?case
    unfolding kv step substituted_Cons using Cons.IH [OF rest p(2)] .
qed

lemma substitute_items_missing:
  assumes "\<forall>(k, v) \<in> set before. text_or_null v" and "keys_present t before"
    and "\<not> sublist k (substituted t before)"
  shows "substitute_items t (before @ (k, v) # after)
           = Inl (Exception (''Key '' @ k @ '' not found in template''))"
  using assms
proof (induction before arbitrary: t)
  case Nil
  then show ?case by (simp add: substituted_def str_contains_sublist)
next
  case (Cons kv before)
  obtain k' v' where kv: "kv = (k', v')" by (cases kv)
  from Cons.prems kv have p: "sublist k' t" "keys_present (str_replace t k' (value_text v')) before"
    and tv: "text_or_null v'" and rest: "\<forall>(k, v) \<in> set before. text_or_null v"
    and miss: "\<not> sublist k (substituted (str_replace t k' (value_text v')) before)"
    by (auto simp: keys_present_Cons substituted_Cons)
  from tv have step: "substitute_items t ((k', v') # before @ (k, v) # after)
      = substitute_items (str_replace t k' (value_text v')) (before @ (k, v) # after)"
    using p(1) by (auto simp: text_or_null_def str_contains_sublist)
  from Cons.IH [OF rest p(2) miss] step show ?case
    unfolding kv by simp
qed

lemma match_lazy_close_iff:
  "(match_lazy_close r \<noteq> None) = (\<exists>inner after. r = inner @ ''}}'' @ after \<and> CHR 0x0A \<notin> set inner)"
proof
  show "match_lazy_close r \<noteq> None \<Longrightarrow> \<exists>inner after. r = inner @ ''}}'' @ after \<and> CHR 0x0A \<notin> set inner"
  proof (induction r)
    case Nil
    then show ?case by simp
  next
    case (Cons c cs)
    show ?case
    proof (cases "prefix ''}}'' (c # cs)")
      case True
      then obtain after where "c # cs = ''}}'' @ after" by (auto simp: prefix_def)
      then have "c # cs = [] @ ''}}'' @ after \<and> CHR 0x0A \<notin> set []" by simp
      then show ?thesis by blast
    next
      case False
      with Cons.prems have c: "c \<noteq> CHR 0x0A" and "match_lazy_close cs \<noteq> None"
        by (auto split: if_splits)
      with Cons.IH obtain inner after where "cs = inner @ ''}}'' @ after" "CHR 0x0A \<notin> set inner"
        by blast
      with c have "c # cs = (c # inner) @ ''}}'' @ after \<and> CHR 0x0A \<notin> set (c # inner)" by simp
      then show ?thesis by blast
    qed
  qed
next
  assume "\<exists>inner after. r = inner @ ''}}'' @ after \<and> CHR 0x0A \<notin> set inner"
  then obtain inner after where r: "r = inner @ ''}}'' @ after" and nl: "CHR 0x0A \<notin> set inner"
    by blast
  from nl show "match_lazy_close r \<noteq> None"
    unfolding r
  proof (induction inner)
    case Nil
    then show ?case by simp
  next
    case (Cons c inner)
    then show ?case by auto
  qed
qed

lemma match_token_iff:
  "(match_token s \<noteq> None) = (\<exists>inner after. s = ''{{'' @ inner @ ''}}'' @ after \<and> CHR 0x0A \<notin> set inner)"
proof -
  have "(match_token s \<noteq> None) = (\<exists>r. s = ''{{'' @ r \<and> match_lazy_close r \<noteq> None)"
    by (auto simp: match_token_def strip_prefix_def prefix_def split: option.splits)
  then show ?thesis
    unfolding match_lazy_close_iff by auto
qed

lemma find_tokens_iff_match:
  "(find_tokens s \<noteq> []) = (\<exists>before rest. s = before @ rest \<and> match_token rest \<noteq> None)"
proof
  show "find_tokens s \<noteq> [] \<Longrightarrow> \<exists>before rest. s = before @ rest \<and> match_token rest \<noteq> None"
  proof (induction s rule: find_tokens.induct)
    case 1
    then show ?case by simp
  next
    case (2 c cs)
    show ?case
    proof (cases "match_token (c # cs)")
      case None
      with 2 obtain before rest where "cs = before @ rest" "match_token rest \<noteq> None"
        by auto
      then have "c # cs = (c # before) @ rest \<and> match_token rest \<noteq> None" by simp
      then show ?thesis by blast
    next
      case (Some x)
      then have "c # cs = [] @ (c # cs) \<and> match_token (c # cs) \<noteq> None" by simp
      then show ?thesis by blast
    qed
  qed
next
  assume "\<exists>before rest. s = before @ rest \<and> match_token rest \<noteq> None"
  then obtain before rest where s: "s = before @ rest" and m: "match_token rest \<noteq> None"
    by blast
  have ne: "rest \<noteq> []" using m by (auto simp: match_token_def strip_prefix_def)
  show "find_tokens s \<noteq> []"
    unfolding s
  proof (induction before)
    case Nil
    from ne obtain c cs where "rest = c # cs" by (cases rest) auto
    with m show ?case by auto
  next
    case (Cons b before)
    then show ?case by (cases "match_token (b # before @ rest)") auto
  qed
qed

lemma find_tokens_line_token: "(find_tokens s \<noteq> []) = has_line_token s"
  unfolding find_tokens_iff_match match_token_iff has_line_token_def
  by (metis append.assoc)

lemma line_token_is_token: "has_line_token s \<Longrightarrow> has_token s"
  unfolding has_line_token_def has_token_def by blast

text \<open>
  C3, as the specification states it, fails: the pattern's \<open>.\<close> matches no line feed, so
  a token whose braces stand on different lines is not found, and \<open>populate_template\<close>
  returns a text that still holds a token of the shape \<open>{{...}}\<close>.
\<close>

theorem populate_template_line_feed_counterexample:
  "has_token (''<p>{{'' @ [CHR 0x0A] @ ''last-updated'' @ [CHR 0x0A] @ ''}}</p>'') \<and>
   populate_template (''<p>{{'' @ [CHR 0x0A] @ ''last-updated'' @ [CHR 0x0A] @ ''}}</p>'') []
     = Inr (''<p>{{'' @ [CHR 0x0A] @ ''last-updated'' @ [CHR 0x0A] @ ''}}</p>'')"
proof
  have "''<p>{{'' @ [CHR 0x0A] @ ''last-updated'' @ [CHR 0x0A] @ ''}}</p>''
      = ''<p>'' @ ''{{'' @ ([CHR 0x0A] @ ''last-updated'' @ [CHR 0x0A]) @ ''}}'' @ ''</p>''"
    by simp
  then show "has_token (''<p>{{'' @ [CHR 0x0A] @ ''last-updated'' @ [CHR 0x0A] @ ''}}</p>'')"
    unfolding has_token_def by blast
  show "populate_template (''<p>{{'' @ [CHR 0x0A] @ ''last-updated'' @ [CHR 0x0A] @ ''}}</p>'') []
     = Inr (''<p>{{'' @ [CHR 0x0A] @ ''last-updated'' @ [CHR 0x0A] @ ''}}</p>'')"
    by (simp add: populate_template_def match_token_def strip_prefix_def)
qed

text \<open>
  C3 (amended). For a template and items whose values are strings or null: if a key does
  not occur in the template as the items before it left it, \<open>populate_template\<close> raises
  the \<open>Exception\<close> that names the key; a null value is substituted as \<open>Undefined\<close>; and
  when every key occurs, the result is the \<open>Unmatched variables\<close> exception exactly when
  the substituted text still holds a token \<open>{{...}}\<close> with no line feed between its
  braces, and the substituted text otherwise.
\<close>

theorem populate_template_outcomes:
  assumes "\<forall>(k, v) \<in> set data. text_or_null v"
  shows "(\<forall>before k v after.
            data = before @ (k, v) # after \<and> keys_present template before \<and>
            \<not> sublist k (substituted template before) \<longrightarrow>
            populate_template template data
              = Inl (Exception (''Key '' @ k @ '' not found in template'')))
       \<and> (keys_present template data \<longrightarrow>
            populate_template template data
              = (if has_line_token (substituted template data)
                 then Inl (ExceptionUnmatched (find_tokens (substituted template data)))
                 else Inr (substituted template data)))
       \<and> substituted template [(key, JNull)] = str_replace template key ''Undefined''"
proof (intro conjI allI impI)
  fix before k v after
  assume a: "data = before @ (k, v) # after \<and> keys_present template before \<and>
            \<not> sublist k (substituted template before)"
  with assms have "\<forall>(k, v) \<in> set before. text_or_null v" by auto
  with a have "substitute_items template data = Inl (Exception (''Key '' @ k @ '' not found in template''))"
    using substitute_items_missing by blast
  then show "populate_template template data
              = Inl (Exception (''Key '' @ k @ '' not found in template''))"
    by (simp add: populate_template_def)
next
  assume "keys_present template data"
  with assms have "substitute_items template data = Inr (substituted template data)"
    by (rule substitute_items_present)
  then show "populate_template template data
              = (if has_line_token (substituted template data)
                 then Inl (ExceptionUnmatched (find_tokens (substituted template data)))
                 else Inr (substituted template data))"
    by (simp add: populate_template_def Let_def find_tokens_line_token [symmetric])
next
  show "substituted template [(key, JNull)] = str_replace template key ''Undefined''"
    by (simp add: substituted_def)
qed

lemma single_items_values: "\<forall>(k, v) \<in> set (single_items JNull). text_or_null v"
  by (simp add: single_items_def text_or_null_def)

lemma single_table_keys: "keys_present single_table (single_items JNull)"
  by (simp add: single_items_def single_table_def keys_present_Cons keys_present_Nil WHITE_def
      str_contains_sublist [symmetric])

lemma single_table_substituted:
  "substituted single_table (single_items JNull)
     = ''<td bgcolor=#ffffff><a href=Undefined>Foo-state-diagram.png</a></td>''"
  by (simp add: single_items_def single_table_def substituted_def WHITE_def)

lemma single_table_no_token:
  "\<not> has_line_token ''<td bgcolor=#ffffff><a href=Undefined>Foo-state-diagram.png</a></td>''"
  by (simp add: find_tokens_line_token [symmetric] match_token_def strip_prefix_def)

lemma single_table_before:
  "keys_present ''<td>{{filename}}</td>'' [] \<and> \<not> sublist ''{{highlight-colour}}'' (substituted ''<td>{{filename}}</td>'' [])"
  by (simp add: keys_present_Nil substituted_def str_contains_sublist [symmetric])

theorem populate_template_outcomes_witness:
  "keys_present single_table (single_items JNull) \<and>
   populate_template single_table (single_items JNull)
     = Inr ''<td bgcolor=#ffffff><a href=Undefined>Foo-state-diagram.png</a></td>'' \<and>
   populate_template ''<td>{{filename}}</td>'' (single_items JNull)
     = Inl (Exception ''Key {{highlight-colour}} not found in template'')"
proof -
  note t = populate_template_outcomes [OF single_items_values]
  from t [of single_table] single_table_keys single_table_substituted single_table_no_token
  have a: "populate_template single_table (single_items JNull)
     = Inr ''<td bgcolor=#ffffff><a href=Undefined>Foo-state-diagram.png</a></td>''"
    by simp
  have split: "single_items JNull = [] @ (''{{highlight-colour}}'', JStr WHITE) # tl (single_items JNull)"
    by (simp add: single_items_def)
  from t [of "''<td>{{filename}}</td>''"] split single_table_before
  have b: "populate_template ''<td>{{filename}}</td>'' (single_items JNull)
     = Inl (Exception (''Key '' @ ''{{highlight-colour}}'' @ '' not found in template''))"
    by blast
  from a b single_table_keys show ?thesis by simp
qed

section \<open>Replacing an attachment (C4)\<close>

lemma delete_confluence_attachment_run:
  "delete_confluence_attachment E cfg a st h =
     (case http E h (delete_request cfg
              (CONFLUENCE_BASE_URL cfg @ ''/rest/api/content/'' @ py_str E a @ ''?status='' @ st)) of
        None \<Rightarrow> Inl RequestException
      | Some r \<Rightarrow>
          if 400 \<le> status_code r \<and> status_code r < 600 then Inl (HTTPError (status_code r))
          else Inr (),
      h @ [Http (delete_request cfg
              (CONFLUENCE_BASE_URL cfg @ ''/rest/api/content/'' @ py_str E a @ ''?status='' @ st))])"
  by (simp add: delete_confluence_attachment_def Let_def io_bind_def requests_send_def
      raise_for_status_def io_raise_def io_return_def split: option.splits)

text \<open>
  C4. \<open>upload_image_version_to_confluence\<close>, once the file is opened and the query for
  an attachment of its name is answered with an object: when the \<open>results\<close> are a list
  whose first element has an \<open>id\<close>, the requests that follow the query are the delete of
  that id with status \<open>current\<close>, then, if it succeeded, the delete with status
  \<open>trashed\<close>, then, if that succeeded too, the upload; when there are no results the
  upload follows the query at once. The upload is a POST of the file as a multipart
  attachment with \<open>minorEdit\<close> set to \<open>true\<close>.
\<close>

theorem upload_deletes_then_uploads:
  assumes "read_file E h image_path = Some content"
    and "request_url = CONFLUENCE_BASE_URL cfg @ ''/rest/api/content/'' @ page_id @ ''/child/attachment''"
    and "query = attachment_query cfg request_url (basename image_path)"
    and "upload = attachment_upload cfg request_url (basename image_path) content"
    and "http E (h @ [OpenRead image_path]) query = Some check_response"
    and "\<not> (400 \<le> status_code check_response \<and> status_code check_response < 600)"
    and "json_loads E (body check_response) = Some (JDict answer)"
    and "h2 = h @ [OpenRead image_path, Http query]"
    and "delete_current = delete_request cfg
           (CONFLUENCE_BASE_URL cfg @ ''/rest/api/content/'' @ py_str E attachment_id @ ''?status=current'')"
    and "delete_trashed = delete_request cfg
           (CONFLUENCE_BASE_URL cfg @ ''/rest/api/content/'' @ py_str E attachment_id @ ''?status=trashed'')"
  shows "(map_of answer ''results'' = Some (JList (JDict first # others)) \<and>
          map_of first ''id'' = Some attachment_id \<longrightarrow>
            snd (upload_image_version_to_confluence E cfg page_id image_path h)
              = (if request_fails E h2 delete_current then h2 @ [Http delete_current]
                 else if request_fails E (h2 @ [Http delete_current]) delete_trashed
                 then h2 @ [Http delete_current, Http delete_trashed]
                 else h2 @ [Http delete_current, Http delete_trashed, Http upload]))
       \<and> (map_of answer ''results'' = None \<or> map_of answer ''results'' = Some (JList []) \<longrightarrow>
            snd (upload_image_version_to_confluence E cfg page_id image_path h) = h2 @ [Http upload])
       \<and> verb upload = POST
       \<and> files upload = [(''file'', basename image_path, content, ''image/png'')]
       \<and> form_data upload = [(''minorEdit'', ''true'')]
       \<and> verb delete_current = DELETE \<and> verb delete_trashed = DELETE"
proof -
  let ?run = "upload_image_version_to_confluence E cfg page_id image_path h"
  let ?tail = "\<lambda>h'. io_bind (requests_send E upload) (\<lambda>response.
                 io_bind (raise_for_status response) (\<lambda>_. io_lift (response_json E response))) h'"
  have s1: "open_read E image_path h = (Inr content, h @ [OpenRead image_path])"
    using assms(1) by (simp add: open_read_def)
  have s2: "requests_send E query (h @ [OpenRead image_path]) = (Inr check_response, h2)"
    using assms(5,8) by (simp add: requests_send_def)
  have s3: "raise_for_status check_response h2 = (Inr (), h2)"
    using assms(6) by (auto simp: raise_for_status_def io_return_def)
  have s4: "io_lift (response_json E check_response) h2 = (Inr (JDict answer), h2)"
    using assms(7) by (simp add: io_lift_def response_json_def)
  have unfold: "?run =
      io_bind (io_lift (dict_get (JDict answer) ''results'' (JList []))) (\<lambda>results.
         io_bind
           (if truthy results
            then io_bind (io_lift (getitem0 results)) (\<lambda>first.
                 io_bind (io_lift (getitem first ''id'')) (\<lambda>attachment_id.
                 io_bind (delete_confluence_attachment E cfg attachment_id ''current'') (\<lambda>_.
                   delete_confluence_attachment E cfg attachment_id ''trashed'')))
            else io_return ()) (\<lambda>_. ?tail)) h2"
    unfolding upload_image_version_to_confluence_def Let_def
      assms(2) [symmetric] assms(3) [symmetric]
    by (simp only: io_bind_Inr [where m = "open_read E image_path" and h = h, OF s1]
        io_bind_Inr [where m = "requests_send E query" and h = "h @ [OpenRead image_path]", OF s2]
        io_bind_Inr [where m = "raise_for_status check_response" and h = h2, OF s3]
        io_bind_Inr [where m = "io_lift (response_json E check_response)" and h = h2, OF s4]
        assms(4) [symmetric])
  have found: "snd ?run
              = (if request_fails E h2 delete_current then h2 @ [Http delete_current]
                 else if request_fails E (h2 @ [Http delete_current]) delete_trashed
                 then h2 @ [Http delete_current, Http delete_trashed]
                 else h2 @ [Http delete_current, Http delete_trashed, Http upload])"
    if r: "map_of answer ''results'' = Some (JList (JDict first # others)) \<and>
          map_of first ''id'' = Some attachment_id"
  proof -
    have d1: "delete_confluence_attachment E cfg attachment_id ''current'' h2
        = (if request_fails E h2 delete_current
           then Inl (case http E h2 delete_current of None \<Rightarrow> RequestException
                     | Some r \<Rightarrow> HTTPError (status_code r))
           else Inr (), h2 @ [Http delete_current])"
      unfolding delete_confluence_attachment_run assms(9) request_fails_def
      by (simp split: option.splits)
    have d2: "delete_confluence_attachment E cfg attachment_id ''trashed'' (h2 @ [Http delete_current])
        = (if request_fails E (h2 @ [Http delete_current]) delete_trashed
           then Inl (case http E (h2 @ [Http delete_current]) delete_trashed of None \<Rightarrow> RequestException
                     | Some r \<Rightarrow> HTTPError (status_code r))
           else Inr (), h2 @ [Http delete_current, Http delete_trashed])"
      unfolding delete_confluence_attachment_run assms(10) request_fails_def
      by (simp split: option.splits)
    have "?run =
        io_bind (io_bind (delete_confluence_attachment E cfg attachment_id ''current'') (\<lambda>_.
                   delete_confluence_attachment E cfg attachment_id ''trashed'')) (\<lambda>_. ?tail) h2"
      unfolding unfold using r by (simp add: io_bind_def io_lift_def)
    then show ?thesis
      using send_then_check_trace [of E upload "response_json E" "h2 @ [Http delete_current, Http delete_trashed]"]
      by (simp add: io_bind_def d1 d2)
  qed
  have fresh: "snd ?run = h2 @ [Http upload]"
    if r: "map_of answer ''results'' = None \<or> map_of answer ''results'' = Some (JList [])"
  proof -
    have "?run = ?tail h2"
      unfolding unfold using r by (auto simp: io_bind_def io_lift_def io_return_def)
    then show ?thesis
      using send_then_check_trace [of E upload "response_json E" h2] by simp
  qed
  show ?thesis
    using found fresh by (simp add: assms(4,9,10) attachment_upload_def delete_request_def)
qed

theorem upload_deletes_then_uploads_witness:
  "snd (upload_image_version_to_confluence wiki_env (Config ''t1'' ''t2'') ''12345''
          ''build/Foo-state-diagram.png'' [])
     = [OpenRead ''build/Foo-state-diagram.png'',
        Http (attachment_query (Config ''t1'' ''t2'')
                ''https://softwareone.atlassian.net/wiki/rest/api/content/12345/child/attachment''
                ''Foo-state-diagram.png''),
        Http (delete_request (Config ''t1'' ''t2'')
                ''https://softwareone.atlassian.net/wiki/rest/api/content/att77?status=current''),
        Http (delete_request (Config ''t1'' ''t2'')
                ''https://softwareone.atlassian.net/wiki/rest/api/content/att77?status=trashed''),
        Http (attachment_upload (Config ''t1'' ''t2'')
                ''https://softwareone.atlassian.net/wiki/rest/api/content/12345/child/attachment''
                ''Foo-state-diagram.png'' ''PNG'')]"
proof -
  let ?cfg = "Config ''t1'' ''t2''"
  let ?url = "''https://softwareone.atlassian.net/wiki/rest/api/content/12345/child/attachment''"
  let ?q = "attachment_query ?cfg ?url ''Foo-state-diagram.png''"
  let ?d1 = "delete_request ?cfg ''https://softwareone.atlassian.net/wiki/rest/api/content/att77?status=current''"
  let ?d2 = "delete_request ?cfg ''https://softwareone.atlassian.net/wiki/rest/api/content/att77?status=trashed''"
  have a1: "read_file wiki_env [] ''build/Foo-state-diagram.png'' = Some ''PNG''"
    by (simp add: wiki_env_def)
  have a2: "?url = CONFLUENCE_BASE_URL ?cfg @ ''/rest/api/content/'' @ ''12345'' @ ''/child/attachment''"
    by (simp add: Config_def)
  have a3: "?q = attachment_query ?cfg ?url (basename ''build/Foo-state-diagram.png'')"
    by (simp add: basename_def)
  have a4: "attachment_upload ?cfg ?url ''Foo-state-diagram.png'' ''PNG''
      = attachment_upload ?cfg ?url (basename ''build/Foo-state-diagram.png'') ''PNG''"
    by (simp add: basename_def)
  have a5: "http wiki_env ([] @ [OpenRead ''build/Foo-state-diagram.png'']) ?q
      = Some \<lparr> status_code = 200, body = ''attachments'' \<rparr>"
    by (simp add: wiki_env_def attachment_query_def)
  have a6: "\<not> (400 \<le> status_code \<lparr> status_code = 200, body = ''attachments'' \<rparr> \<and>
             status_code \<lparr> status_code = 200, body = ''attachments'' \<rparr> < 600)"
    by simp
  have a7: "json_loads wiki_env (body \<lparr> status_code = 200, body = ''attachments'' \<rparr>)
      = Some (JDict [(''results'', JList [JDict [(''id'', JStr ''att77'')]])])"
    by (simp add: wiki_env_def)
  have a8: "[OpenRead ''build/Foo-state-diagram.png'', Http ?q] = [] @ [OpenRead ''build/Foo-state-diagram.png'', Http ?q]"
    by simp
  have a9: "?d1 = delete_request ?cfg
           (CONFLUENCE_BASE_URL ?cfg @ ''/rest/api/content/'' @ py_str wiki_env (JStr ''att77'') @ ''?status=current'')"
    by (simp add: Config_def py_str_def)
  have a10: "?d2 = delete_request ?cfg
           (CONFLUENCE_BASE_URL ?cfg @ ''/rest/api/content/'' @ py_str wiki_env (JStr ''att77'') @ ''?status=trashed'')"
    by (simp add: Config_def py_str_def)
  have found: "map_of [(''results'', JList [JDict [(''id'', JStr ''att77'')]])] ''results''
       = Some (JList (JDict [(''id'', JStr ''att77'')] # [])) \<and>
     map_of [(''id'', JStr ''att77'')] ''id'' = Some (JStr ''att77'')"
    by simp
  have ok: "\<not> request_fails wiki_env h rq" for h rq
    by (simp add: request_fails_def wiki_env_def)
  from upload_deletes_then_uploads
         [where first = "[(''id'', JStr ''att77'')]" and others = "[]", OF a1 a2 a3 a4 a5 a6 a7 a8 a9 a10]
       found
  show ?thesis
    by (simp add: ok)
qed

section \<open>Publishing the next version (C5)\<close>

text \<open>
  C5. \<open>update_page_content\<close> first gets the page; when the answer is an object with a
  \<open>title\<close> \<open>T\<close> and a version \<open>number\<close> \<open>N\<close>, the one request that follows is the PUT to
  the same URL of a payload with that title, the new content as the value of the storage
  representation, and version number \<open>N + 1\<close>.
\<close>

theorem update_page_content_next_version:
  assumes "api_url = CONFLUENCE_BASE_URL cfg @ ''/rest/api/content/'' @ page_id"
    and "http E h (content_get cfg api_url) = Some resp"
    and "\<not> (400 \<le> status_code resp \<and> status_code resp < 600)"
    and "json_loads E (body resp) = Some (JDict page)"
    and "map_of page ''title'' = Some T"
    and "map_of page ''version'' = Some (JDict version)"
    and "map_of version ''number'' = Some (JInt N)"
  shows "snd (update_page_content E cfg page_id new_content h)
           = h @ [Http (content_get cfg api_url),
                  Http (content_put cfg api_url
                    (JDict [(''id'', JStr page_id),
                            (''type'', JStr ''page''),
                            (''title'', T),
                            (''body'', JDict [(''storage'',
                               JDict [(''value'', JStr new_content),
                                      (''representation'', JStr ''storage'')])]),
                            (''version'', JDict [(''number'', JInt (N + 1))])]))]
         \<and> verb (content_get cfg api_url) = GET
         \<and> verb (content_put cfg api_url payload) = PUT
         \<and> json_payload (content_put cfg api_url payload) = Some payload"
proof -
  let ?h1 = "h @ [Http (content_get cfg api_url)]"
  have s1: "requests_send E (content_get cfg api_url) h = (Inr resp, ?h1)"
    using assms(2) by (simp add: requests_send_def)
  have s2: "raise_for_status resp ?h1 = (Inr (), ?h1)"
    using assms(3) by (auto simp: raise_for_status_def io_return_def)
  have s3: "try_bind (response_json E resp) (\<lambda>j. getitem j ''title'') = Inr T"
    using assms(4,5) by (simp add: try_bind_def response_json_def)
  have s4: "try_bind (response_json E resp) (\<lambda>j.
              try_bind (getitem j ''version'') (\<lambda>v. getitem v ''number'')) = Inr (JInt N)"
    using assms(4,6,7) by (simp add: try_bind_def response_json_def)
  have "update_page_content E cfg page_id new_content h
      = io_bind (requests_send E
                    (content_put cfg api_url (page_payload page_id T new_content (JInt (N + 1)))))
           (\<lambda>put_response.
         io_bind (raise_for_status put_response) (\<lambda>_.
           io_lift (response_json E put_response))) ?h1"
    unfolding update_page_content_def Let_def assms(1) [symmetric]
    by (simp only: io_bind_Inr [where m = "requests_send E (content_get cfg api_url)" and h = h, OF s1]
        io_bind_Inr [where m = "raise_for_status resp" and h = ?h1, OF s2]
        s3 s4 add_one.simps io_bind_lift_Inr)
  then have "snd (update_page_content E cfg page_id new_content h)
      = ?h1 @ [Http (content_put cfg api_url (page_payload page_id T new_content (JInt (N + 1))))]"
    by (simp add: send_then_check_trace)
  then show ?thesis
    by (simp add: page_payload_def content_get_def content_put_def)
qed

theorem update_page_content_next_version_witness:
  "snd (update_page_content wiki_env (Config ''t1'' ''t2'') ''12345'' ''<p>new</p>'' [])
     = [Http (content_get (Config ''t1'' ''t2'')
                ''https://softwareone.atlassian.net/wiki/rest/api/content/12345''),
        Http (content_put (Config ''t1'' ''t2'')
                ''https://softwareone.atlassian.net/wiki/rest/api/content/12345''
                (JDict [(''id'', JStr ''12345''),
                        (''type'', JStr ''page''),
                        (''title'', JStr ''Foo''),
                        (''body'', JDict [(''storage'',
                           JDict [(''value'', JStr ''<p>new</p>''),
                                  (''representation'', JStr ''storage'')])]),
                        (''version'', JDict [(''number'', JInt 8)])]))]"
proof -
  let ?cfg = "Config ''t1'' ''t2''"
  let ?url = "''https://softwareone.atlassian.net/wiki/rest/api/content/12345''"
  let ?resp = "\<lparr> status_code = 200, body = ''page'' \<rparr>"
  have a1: "?url = CONFLUENCE_BASE_URL ?cfg @ ''/rest/api/content/'' @ ''12345''"
    by (simp add: Config_def)
  have a2: "http wiki_env [] (content_get ?cfg ?url) = Some ?resp"
    by (simp add: wiki_env_def content_get_def)
  have a3: "\<not> (400 \<le> status_code ?resp \<and> status_code ?resp < 600)"
    by simp
  have a4: "json_loads wiki_env (body ?resp)
      = Some (JDict [(''title'', JStr ''Foo''),
                     (''version'', JDict [(''number'', JInt 7)]),
                     (''body'', JDict [(''storage'', JDict [(''value'', JStr ''<p>old</p>'')])])])"
    by (simp add: wiki_env_def)
  have a5: "map_of [(''title'', JStr ''Foo''),
                     (''version'', JDict [(''number'', JInt 7)]),
                     (''body'', JDict [(''storage'', JDict [(''value'', JStr ''<p>old</p>'')])])] ''title''
      = Some (JStr ''Foo'')"
    by simp
  have a6: "map_of [(''title'', JStr ''Foo''),
                     (''version'', JDict [(''number'', JInt 7)]),
                     (''body'', JDict [(''storage'', JDict [(''value'', JStr ''<p>old</p>'')])])] ''version''
      = Some (JDict [(''number'', JInt 7)])"
    by simp
  have a7: "map_of [(''number'', JInt 7)] ''number'' = Some (JInt 7)"
    by simp
  from update_page_content_next_version [OF a1 a2 a3 a4 a5 a6 a7, of "''<p>new</p>''"]
  show ?thesis by simp
qed

section \<open>Extracting the file key and the node identifier (C6)\<close>

lemma re_search_iff:
  "(re_search m s \<noteq> None) = (\<exists>before rest. s = before @ rest \<and> m rest \<noteq> None)"
proof (induction s)
  case Nil
  then show ?case by simp
next
  case (Cons c cs)
  show ?case
  proof (cases "m (c # cs)")
    case (Some r)
    then have "c # cs = [] @ (c # cs) \<and> m (c # cs) \<noteq> None" by simp
    then have "\<exists>before rest. c # cs = before @ rest \<and> m rest \<noteq> None" by blast
    with Some show ?thesis by simp
  next
    case None
    have "(\<exists>before rest. c # cs = before @ rest \<and> m rest \<noteq> None)
        = (\<exists>before rest. cs = before @ rest \<and> m rest \<noteq> None)"
    proof
      assume "\<exists>before rest. c # cs = before @ rest \<and> m rest \<noteq> None"
      then obtain before rest where b: "c # cs = before @ rest" "m rest \<noteq> None" by blast
      with None obtain b' where "before = c # b'" by (cases before) auto
      with b show "\<exists>before rest. cs = before @ rest \<and> m rest \<noteq> None" by auto
    next
      assume "\<exists>before rest. cs = before @ rest \<and> m rest \<noteq> None"
      then obtain before rest where "cs = before @ rest" "m rest \<noteq> None" by blast
      then have "c # cs = (c # before) @ rest \<and> m rest \<noteq> None" by simp
      then show "\<exists>before rest. c # cs = before @ rest \<and> m rest \<noteq> None" by blast
    qed
    with None Cons.IH show ?thesis by simp
  qed
qed

lemma takeWhile_run:
  "(takeWhile P s \<noteq> []) = (\<exists>key rest. s = key @ rest \<and> key \<noteq> [] \<and> (\<forall>c \<in> set key. P c))"
proof
  assume "takeWhile P s \<noteq> []"
  then have "s = takeWhile P s @ dropWhile P s \<and> takeWhile P s \<noteq> [] \<and> (\<forall>c \<in> set (takeWhile P s). P c)"
    by (auto dest: set_takeWhileD)
  then show "\<exists>key rest. s = key @ rest \<and> key \<noteq> [] \<and> (\<forall>c \<in> set key. P c)" by blast
next
  assume "\<exists>key rest. s = key @ rest \<and> key \<noteq> [] \<and> (\<forall>c \<in> set key. P c)"
  then obtain key rest where "s = key @ rest" "key \<noteq> []" "\<forall>c \<in> set key. P c" by blast
  then show "takeWhile P s \<noteq> []" by (cases key) auto
qed

lemma match_variant_iff:
  "(match_variant r = Some (variant, r'))
     = (r = variant @ r' \<and> variant \<in> {''file'', ''proto'', ''design''})"
proof
  assume "match_variant r = Some (variant, r')"
  then show "r = variant @ r' \<and> variant \<in> {''file'', ''proto'', ''design''}"
    by (auto simp: match_variant_def prefix_def split: if_splits)
next
  assume "r = variant @ r' \<and> variant \<in> {''file'', ''proto'', ''design''}"
  then show "match_variant r = Some (variant, r')"
    by (auto simp: match_variant_def)
qed

lemma strip_prefix_iff: "(strip_prefix p s = Some r) = (s = p @ r)"
  by (auto simp: strip_prefix_def prefix_def)

lemma match_file_key_iff:
  "(match_file_key s \<noteq> None)
     = (\<exists>variant key rest.
          s = ''figma.com/'' @ variant @ ''/'' @ key @ rest \<and>
          variant \<in> {''file'', ''proto'', ''design''} \<and>
          key \<noteq> [] \<and> (\<forall>c \<in> set key. is_alnum c))"
proof -
  have "(match_file_key s \<noteq> None)
      = (\<exists>r variant r' r''. strip_prefix ''figma.com/'' s = Some r \<and>
           match_variant r = Some (variant, r') \<and> strip_prefix ''/'' r' = Some r'' \<and>
           takeWhile is_alnum r'' \<noteq> [])"
    by (auto simp: match_file_key_def split: option.splits)
  also have "\<dots> = (\<exists>variant r''. s = ''figma.com/'' @ variant @ ''/'' @ r'' \<and>
           variant \<in> {''file'', ''proto'', ''design''} \<and> takeWhile is_alnum r'' \<noteq> [])"
    unfolding strip_prefix_iff match_variant_iff by blast
  also have "\<dots> = (\<exists>variant key rest.
          s = ''figma.com/'' @ variant @ ''/'' @ key @ rest \<and>
          variant \<in> {''file'', ''proto'', ''design''} \<and>
          key \<noteq> [] \<and> (\<forall>c \<in> set key. is_alnum c))"
    unfolding takeWhile_run by blast
  finally show ?thesis .
qed

lemma match_node_id_iff:
  "(match_node_id s \<noteq> None)
     = (\<exists>g rest. s = ''node-id='' @ g @ rest \<and> g \<noteq> [] \<and> (\<forall>c \<in> set g. is_node_char c))"
proof -
  have "(match_node_id s \<noteq> None)
      = (\<exists>r. strip_prefix ''node-id='' s = Some r \<and> takeWhile is_node_char r \<noteq> [])"
    by (auto simp: match_node_id_def split: option.splits)
  also have "\<dots> = (\<exists>r. s = ''node-id='' @ r \<and> takeWhile is_node_char r \<noteq> [])"
    unfolding strip_prefix_iff by blast
  also have "\<dots> = (\<exists>g rest. s = ''node-id='' @ g @ rest \<and> g \<noteq> [] \<and> (\<forall>c \<in> set g. is_node_char c))"
    unfolding takeWhile_run by blast
  finally show ?thesis .
qed

lemma search_file_key_iff: "(re_search match_file_key u \<noteq> None) = has_file_key u"
  unfolding re_search_iff match_file_key_iff has_file_key_def by blast

lemma get_frame_id_iff: "(get_frame_id_from_url u \<noteq> None) = has_node_id u"
proof -
  have "(get_frame_id_from_url u \<noteq> None) = (re_search match_node_id u \<noteq> None)"
    by (simp add: get_frame_id_from_url_def split: option.splits)
  then show ?thesis
    unfolding re_search_iff match_node_id_iff has_node_id_def by blast
qed

lemma match_node_id_nonempty: "match_node_id s = Some g \<Longrightarrow> g \<noteq> []"
  by (auto simp: match_node_id_def split: option.splits if_splits)

lemma re_search_nonempty:
  assumes "\<And>s g. m s = Some g \<Longrightarrow> g \<noteq> []"
  shows "re_search m u = Some g \<Longrightarrow> g \<noteq> []"
  using assms by (induction u) (auto split: option.splits)

lemma str_replace_nonempty: "s \<noteq> [] \<Longrightarrow> new \<noteq> [] \<Longrightarrow> str_replace s old new \<noteq> []"
  by (cases s) auto

lemma frame_id_nonempty: "get_frame_id_from_url u = Some n \<Longrightarrow> n \<noteq> []"
proof -
  assume a: "get_frame_id_from_url u = Some n"
  then obtain g where g: "re_search match_node_id u = Some g" and n: "n = str_replace g '':'' ''%3A''"
    by (auto simp: get_frame_id_from_url_def split: option.splits)
  from g have "g \<noteq> []" using re_search_nonempty [of match_node_id] match_node_id_nonempty by blast
  then show ?thesis unfolding n by (rule str_replace_nonempty) simp
qed

text \<open>
  C6. \<open>render_figma_png\<close> extracts a file key exactly when the URL holds \<open>figma.com/\<close>, one
  of \<open>file\<close>, \<open>proto\<close> and \<open>design\<close>, a slash and an alphanumeric key, and a node
  identifier exactly when the URL holds \<open>node-id=\<close> followed by digits, colons or hyphens.
  Without a file key it raises \<open>ValueError\<close> \<open>Could not extract Figma file key from URL\<close>,
  with a file key and without a node identifier \<open>Could not extract node-id from URL\<close>,
  both before anything is sent; with both, its first action is the call of the rendering
  API for that key and node identifier.
\<close>

theorem extraction_or_value_error:
  "(re_search match_file_key u \<noteq> None) = has_file_key u
   \<and> (get_frame_id_from_url u \<noteq> None) = has_node_id u
   \<and> (\<not> has_file_key u \<longrightarrow>
        render_figma_png E (JStr u) out_filename figma_token h
          = (Inl (ValueError ''Could not extract Figma file key from URL''), h))
   \<and> (has_file_key u \<and> \<not> has_node_id u \<longrightarrow>
        render_figma_png E (JStr u) out_filename figma_token h
          = (Inl (ValueError ''Could not extract node-id from URL''), h))
   \<and> (has_file_key u \<and> has_node_id u \<longrightarrow>
        (\<exists>variant file_key node_id.
           re_search match_file_key u = Some (variant, file_key) \<and>
           get_frame_id_from_url u = Some node_id \<and>
           take (Suc (length h)) (snd (render_figma_png E (JStr u) out_filename figma_token h))
             = h @ [Http (figma_images_request
                      (''https://api.figma.com/v1/images/'' @ file_key @ ''?ids='' @ node_id
                         @ ''&format=png&scale=2'') figma_token)]))"
proof (intro conjI impI)
  show "(re_search match_file_key u \<noteq> None) = has_file_key u"
    by (rule search_file_key_iff)
  show "(get_frame_id_from_url u \<noteq> None) = has_node_id u"
    by (rule get_frame_id_iff)
next
  assume "\<not> has_file_key u"
  then have "re_search match_file_key u = None"
    using search_file_key_iff [of u] by (cases "re_search match_file_key u") auto
  then show "render_figma_png E (JStr u) out_filename figma_token h
          = (Inl (ValueError ''Could not extract Figma file key from URL''), h)"
    by (simp add: render_figma_png_def io_raise_def)
next
  assume "has_file_key u \<and> \<not> has_node_id u"
  then obtain variant file_key where "re_search match_file_key u = Some (variant, file_key)"
    and "get_frame_id_from_url u = None"
    using search_file_key_iff [of u] get_frame_id_iff [of u] by auto
  then show "render_figma_png E (JStr u) out_filename figma_token h
          = (Inl (ValueError ''Could not extract node-id from URL''), h)"
    by (simp add: render_figma_png_def io_raise_def)
next
  assume "has_file_key u \<and> has_node_id u"
  then obtain variant file_key node_id where
    k: "re_search match_file_key u = Some (variant, file_key)" and
    n: "get_frame_id_from_url u = Some node_id"
    using search_file_key_iff [of u] get_frame_id_iff [of u] by auto
  from n have ne: "node_id \<noteq> []" by (rule frame_id_nonempty)
  let ?rq = "figma_images_request
                      (''https://api.figma.com/v1/images/'' @ file_key @ ''?ids='' @ node_id
                         @ ''&format=png&scale=2'') figma_token"
  have first: "take (Suc (length h)) (snd (render_figma_png E (JStr u) out_filename figma_token h))
      = h @ [Http ?rq]"
    apply (simp only: render_figma_png_def json.case option.case prod.case k n ne if_False Let_def)
    apply (rule first_request)
    apply (auto intro!: appends_bind appends_raise appends_lift appends_check appends_send appends_write
         split: json.splits)
    done
  show "\<exists>variant file_key node_id.
           re_search match_file_key u = Some (variant, file_key) \<and>
           get_frame_id_from_url u = Some node_id \<and>
           take (Suc (length h)) (snd (render_figma_png E (JStr u) out_filename figma_token h))
             = h @ [Http (figma_images_request
                      (''https://api.figma.com/v1/images/'' @ file_key @ ''?ids='' @ node_id
                         @ ''&format=png&scale=2'') figma_token)]"
    using k n first by blast
qed

lemma sample_url_searches:
  "re_search match_file_key ''https://www.figma.com/board/abc123/Name?node-id=1-2'' = None"
  "re_search match_file_key ''https://www.figma.com/design/abc123/Name'' = Some (''design'', ''abc123'')"
  "get_frame_id_from_url ''https://www.figma.com/design/abc123/Name'' = None"
  by (simp_all add: match_file_key_def strip_prefix_def match_variant_def is_alnum_def
      get_frame_id_from_url_def match_node_id_def is_node_char_def)

theorem extraction_or_value_error_witness:
  "\<not> has_file_key ''https://www.figma.com/board/abc123/Name?node-id=1-2'' \<and>
   render_figma_png stub_env (JStr ''https://www.figma.com/board/abc123/Name?node-id=1-2'')
       ''build/x.png'' ''t1'' []
     = (Inl (ValueError ''Could not extract Figma file key from URL''), []) \<and>
   has_file_key ''https://www.figma.com/design/abc123/Name'' \<and>
   \<not> has_node_id ''https://www.figma.com/design/abc123/Name'' \<and>
   render_figma_png stub_env (JStr ''https://www.figma.com/design/abc123/Name'')
       ''build/x.png'' ''t1'' []
     = (Inl (ValueError ''Could not extract node-id from URL''), [])"
proof -
  note t1 = extraction_or_value_error
    [of "''https://www.figma.com/board/abc123/Name?node-id=1-2''" stub_env "''build/x.png''" "''t1''" "[]"]
  note t2 = extraction_or_value_error
    [of "''https://www.figma.com/design/abc123/Name''" stub_env "''build/x.png''" "''t1''" "[]"]
  from t1 sample_url_searches(1)
  have a: "\<not> has_file_key ''https://www.figma.com/board/abc123/Name?node-id=1-2''"
    by simp
  from t2 sample_url_searches(2,3)
  have b: "has_file_key ''https://www.figma.com/design/abc123/Name'' \<and>
           \<not> has_node_id ''https://www.figma.com/design/abc123/Name''"
    by simp
  from t1 t2 a b show ?thesis by blast
qed

section \<open>The lookup key of the rendered image (C7)\<close>

lemma hyphen_node_id_lookup_key:
  assumes "CHR '':'' \<notin> set g"
  shows "str_replace (str_replace g '':'' ''%3A'') ''-'' '':''
           = map (\<lambda>c. if c = CHR ''-'' then CHR '':'' else c) g"
proof -
  have "\<not> str_contains g '':''"
    using assms by (induction g) auto
  then have "str_replace g '':'' ''%3A'' = g"
    by (rule str_replace_absent)
  then show ?thesis
    by (simp add: str_replace_char)
qed

text \<open>
  C7 on the code. A URL whose node identifier is written with a colon: the API is asked for
  \<open>1%3A2\<close>, answers under \<open>1:2\<close>, and the lookup under \<open>1%3A2\<close> raises \<open>KeyError\<close>. The
  same node written with a hyphen is looked up under \<open>1:2\<close> and rendered.
\<close>

theorem colon_node_id_lookup:
  "get_frame_id_from_url ''https://www.figma.com/file/abc123/Name?node-id=1:2'' = Some ''1%3A2'' \<and>
   str_replace ''1%3A2'' ''-'' '':'' = ''1%3A2'' \<and>
   render_figma_png images_env (JStr ''https://www.figma.com/file/abc123/Name?node-id=1:2'')
       ''build/x.png'' ''t1'' []
     = (Inl (KeyError (JStr ''1%3A2'')),
        [Http (figma_images_request
                 ''https://api.figma.com/v1/images/abc123?ids=1%3A2&format=png&scale=2'' ''t1'')]) \<and>
   render_figma_png images_env (JStr ''https://www.figma.com/file/abc123/Name?node-id=1-2'')
       ''build/x.png'' ''t1'' []
     = (Inr (),
        [Http (figma_images_request
                 ''https://api.figma.com/v1/images/abc123?ids=1-2&format=png&scale=2'' ''t1''),
         Http (plain_get ''https://img/1''),
         WriteFile ''build/x.png'' ''{images: {1:2: https://img/1}}''])"
  by code_simp

section \<open>The run stops at the first error (C9)\<close>

lemma process_all_append:
  "process_all E cfg (earlier @ later) h =
     (case process_all E cfg earlier h of
        (Inl e, h') \<Rightarrow> (Inl e, h')
      | (Inr u, h') \<Rightarrow> process_all E cfg later h')"
proof (induction earlier arbitrary: h)
  case Nil
  then show ?case by (simp add: io_return_def)
next
  case (Cons f earlier)
  show ?case
    by (simp add: io_bind_def Cons split: sum.splits prod.splits)
qed

text \<open>
  C9. \<open>main\<close> processes the schema files one after another and nothing catches an error:
  when the files before one were processed and that one raises an error, the run ends with
  that error and with the history as that file left it, whatever files come later, so no
  later file is opened or processed. An error of any step of a file (a schema error of the
  renderer, for one) is the error of the file.
\<close>

theorem first_failure_aborts:
  assumes "process_all E cfg earlier h = (Inr (), h1)"
    and "process_schema_file E cfg schema_file h1 = (Inl e, h2)"
  shows "process_all E cfg (earlier @ schema_file # later) h = (Inl e, h2)
       \<and> process_all E cfg (earlier @ schema_file # later) h
           = process_all E cfg (earlier @ [schema_file]) h
       \<and> (glob_files E h0 ''./schemas/*.json'' = earlier @ schema_file # later \<and>
          h = h0 @ [Glob ''./schemas/*.json''] \<longrightarrow>
            main E cfg h0 = (Inl e, h2))
       \<and> (read_file E h1 schema_file = Some content \<and> json_loads E content = Some object_schema \<and>
          render_figma_images E cfg object_schema (h1 @ [OpenRead schema_file]) = (Inl e', h3) \<longrightarrow>
            process_schema_file E cfg schema_file h1 = (Inl e', h3))"
proof -
  have run: "process_all E cfg (earlier @ schema_file # more) h = (Inl e, h2)" for more
    using assms by (simp add: process_all_append io_bind_def)
  have m: "main E cfg h0 = (Inl e, h2)"
    if "glob_files E h0 ''./schemas/*.json'' = earlier @ schema_file # later \<and>
          h = h0 @ [Glob ''./schemas/*.json'']"
    using that run [of later]
    by (simp add: main_def get_all_schema_files_def io_bind_def del: process_all.simps)
  have s: "process_schema_file E cfg schema_file h1 = (Inl e', h3)"
    if "read_file E h1 schema_file = Some content \<and> json_loads E content = Some object_schema \<and>
          render_figma_images E cfg object_schema (h1 @ [OpenRead schema_file]) = (Inl e', h3)"
    using that by (simp add: process_schema_file_def io_bind_def io_lift_def open_read_def)
  from run [of later] run [of "[]"] m s show ?thesis by simp
qed

lemma first_schema_fails:
  "process_schema_file schemas_env (Config ''t1'' ''t2'') ''./schemas/a.json'' [Glob ''./schemas/*.json'']
     = (Inl (ValueError ''Reference not found for path: desktop.grid-view.vendor''),
        [Glob ''./schemas/*.json'', OpenRead ''./schemas/a.json'', MakeDirs ''build''])"
  by code_simp

theorem first_failure_aborts_witness:
  "main schemas_env (Config ''t1'' ''t2'') []
     = (Inl (ValueError ''Reference not found for path: desktop.grid-view.vendor''),
        [Glob ''./schemas/*.json'', OpenRead ''./schemas/a.json'', MakeDirs ''build''])"
proof -
  have a: "process_all schemas_env (Config ''t1'' ''t2'') [] [Glob ''./schemas/*.json'']
      = (Inr (), [Glob ''./schemas/*.json''])"
    by (simp add: io_return_def)
  have g: "glob_files schemas_env [] ''./schemas/*.json'' = [] @ ''./schemas/a.json'' # [''./schemas/b.json''] \<and>
      [Glob ''./schemas/*.json''] = [] @ [Glob ''./schemas/*.json'']"
    by (simp add: schemas_env_def)
  from first_failure_aborts [OF a first_schema_fails, of "[''./schemas/b.json'']" "[]",
      THEN conjunct2, THEN conjunct2, THEN conjunct1, THEN mp, OF g]
  show ?thesis .
qed

section \<open>The page identifier (C10)\<close>

lemma str_split_absent: "\<not> sublist sep u \<Longrightarrow> str_split u sep = [u]"
proof (induction u sep rule: str_split.induct)
  case (1 sep)
  then show ?case by simp
next
  case (2 c cs sep)
  from "2.prems" have np: "\<not> prefix sep (c # cs)" and ns: "\<not> sublist sep cs"
    by (auto simp: sublist_Cons_right)
  with "2.IH"(2) show ?case by simp
qed

lemma prefix_short: "prefix xs (ys @ zs) \<Longrightarrow> length xs \<le> length ys \<Longrightarrow> prefix xs ys"
  by (auto simp: prefix_append)

lemma str_split_first:
  assumes "sep \<noteq> []" and "\<not> sublist sep (before @ butlast sep)"
  shows "str_split (before @ sep @ rest) sep = before # str_split rest sep"
  using assms(2)
proof (induction before)
  case Nil
  from assms(1) obtain c cs where sep: "sep = c # cs" by (cases sep) auto
  have "str_split (sep @ rest) sep = [] # str_split (drop (length sep) (sep @ rest)) sep"
    unfolding sep by simp
  then show ?case by simp
next
  case (Cons b bs)
  have np: "\<not> prefix sep (b # bs @ sep @ rest)"
  proof
    assume p: "prefix sep (b # bs @ sep @ rest)"
    have e: "sep = butlast sep @ [last sep]" using assms(1) by simp
    have "b # bs @ sep @ rest = ((b # bs) @ butlast sep) @ (last sep # rest)"
      by (metis e append.assoc append_Cons append_Nil)
    with p have "prefix sep (((b # bs) @ butlast sep) @ (last sep # rest))" by simp
    then have "prefix sep ((b # bs) @ butlast sep)"
      by (rule prefix_short) simp
    then have "sublist sep ((b # bs) @ butlast sep)" by (rule prefix_imp_sublist)
    with Cons.prems show False by simp
  qed
  from Cons.prems have "\<not> sublist sep (bs @ butlast sep)"
    by (auto simp: sublist_Cons_right)
  from Cons.IH [OF this] np show ?case by simp
qed

lemma str_split_char_head:
  "str_split s [c] = p # ps \<Longrightarrow> p = takeWhile (\<lambda>x. x \<noteq> c) s"
proof (induction s arbitrary: p ps)
  case Nil
  then show ?case by simp
next
  case (Cons a s)
  show ?case
  proof (cases "a = c")
    case True
    with Cons.prems show ?thesis by simp
  next
    case False
    obtain q qs where q: "str_split s [c] = q # qs"
      using str_split_not_Nil [of s "[c]"] by (cases "str_split s [c]") auto
    from Cons.IH [OF q] Cons.prems False q show ?thesis by simp
  qed
qed

lemma first_of_split: "list_index (str_split s [c]) 0 = Inr (takeWhile (\<lambda>x. x \<noteq> c) s)"
proof -
  obtain p ps where q: "str_split s [c] = p # ps"
    using str_split_not_Nil [of s "[c]"] by (cases "str_split s [c]") auto
  from str_split_char_head [OF q] q show ?thesis by (simp add: list_index_def)
qed

lemma str_split_head_run:
  "str_split s (c # cs) = p # ps \<Longrightarrow> takeWhile (\<lambda>x. x \<noteq> c) p = takeWhile (\<lambda>x. x \<noteq> c) s"
proof (induction s arbitrary: p ps)
  case Nil
  then show ?case by simp
next
  case (Cons a s)
  show ?case
  proof (cases "prefix (c # cs) (a # s)")
    case True
    with Cons.prems show ?thesis by auto
  next
    case False
    obtain q qs where q: "str_split s (c # cs) = q # qs"
      using str_split_not_Nil [of s "c # cs"] by (cases "str_split s (c # cs)") auto
    from Cons.IH [OF q] Cons.prems False q show ?thesis by auto
  qed
qed

lemma page_id_of_found:
  assumes "u = before @ ''/pages/'' @ rest" and "\<not> sublist ''/pages/'' (before @ ''/pages'')"
  shows "page_id_of (JStr u) = Inr (takeWhile (\<lambda>c. c \<noteq> CHR ''/'') rest)"
proof -
  have "\<not> sublist ''/pages/'' (before @ butlast ''/pages/'')"
    using assms(2) by simp
  then have first: "str_split (before @ ''/pages/'' @ rest) ''/pages/'' = before # str_split rest ''/pages/''"
    by (rule str_split_first [rotated]) simp
  obtain p ps where p: "str_split rest ''/pages/'' = p # ps"
    using str_split_not_Nil [of rest "''/pages/''"] by (cases "str_split rest ''/pages/''") auto
  have one: "list_index (str_split u ''/pages/'') 1 = Inr p"
    unfolding assms(1) first p by (simp add: list_index_def)
  have run: "takeWhile (\<lambda>x. x \<noteq> CHR ''/'') p = takeWhile (\<lambda>x. x \<noteq> CHR ''/'') rest"
    using p by (rule str_split_head_run)
  show ?thesis
    unfolding page_id_of_def by (simp only: json.case one sum.case first_of_split run)
qed

lemma page_id_of_absent:
  assumes "\<not> sublist ''/pages/'' u"
  shows "page_id_of (JStr u) = Inl IndexError"
  by (simp add: page_id_of_def str_split_absent [OF assms] list_index_def)

text \<open>
  C10. When the \<open>confluence-page\<close> value is a string that holds \<open>/pages/\<close>, both
  \<open>download_current_confluence_page\<close> and \<open>update_confluence_page\<close> go on with, as page
  identifier, the text between the first \<open>/pages/\<close> and the next slash or the end of the
  string, whatever that text is; the fetch of that page is the first request. When the
  string does not hold \<open>/pages/\<close>, both raise \<open>IndexError\<close> before doing anything.
\<close>

theorem page_identifier:
  "(u = before @ ''/pages/'' @ rest \<and> \<not> sublist ''/pages/'' (before @ ''/pages'') \<and>
    getitem object_schema ''confluence-page'' = Inr (JStr u) \<longrightarrow>
      download_current_confluence_page E cfg object_schema
        = download_page E cfg (takeWhile (\<lambda>c. c \<noteq> CHR ''/'') rest) \<and>
      update_confluence_page E cfg rendered_files object_schema
        = publish_page E cfg (takeWhile (\<lambda>c. c \<noteq> CHR ''/'') rest) rendered_files object_schema \<and>
      take (Suc (length h)) (snd (download_current_confluence_page E cfg object_schema h))
        = h @ [Http (page_request cfg
                 (CONFLUENCE_BASE_URL cfg @ ''/rest/api/content/''
                    @ takeWhile (\<lambda>c. c \<noteq> CHR ''/'') rest @ ''?expand=body.storage,version''))])
   \<and> (\<not> sublist ''/pages/'' u \<and> getitem object_schema ''confluence-page'' = Inr (JStr u) \<longrightarrow>
        download_current_confluence_page E cfg object_schema h = (Inl IndexError, h) \<and>
        update_confluence_page E cfg rendered_files object_schema h = (Inl IndexError, h))"
proof (intro conjI impI)
  assume a: "u = before @ ''/pages/'' @ rest \<and> \<not> sublist ''/pages/'' (before @ ''/pages'') \<and>
    getitem object_schema ''confluence-page'' = Inr (JStr u)"
  then have pid: "page_id_of (JStr u) = Inr (takeWhile (\<lambda>c. c \<noteq> CHR ''/'') rest)"
    using page_id_of_found by blast
  from a have g: "getitem object_schema ''confluence-page'' = Inr (JStr u)" by simp
  show d: "download_current_confluence_page E cfg object_schema
        = download_page E cfg (takeWhile (\<lambda>c. c \<noteq> CHR ''/'') rest)"
    by (rule ext) (simp add: download_current_confluence_page_def g pid io_bind_lift_Inr)
  show "update_confluence_page E cfg rendered_files object_schema
        = publish_page E cfg (takeWhile (\<lambda>c. c \<noteq> CHR ''/'') rest) rendered_files object_schema"
    by (rule ext) (simp add: update_confluence_page_def g pid io_bind_lift_Inr)
  show "take (Suc (length h)) (snd (download_current_confluence_page E cfg object_schema h))
        = h @ [Http (page_request cfg
                 (CONFLUENCE_BASE_URL cfg @ ''/rest/api/content/''
                    @ takeWhile (\<lambda>c. c \<noteq> CHR ''/'') rest @ ''?expand=body.storage,version''))]"
    unfolding d download_page_def Let_def
    apply (rule first_request)
    apply (auto intro!: appends_bind appends_raise appends_lift appends_check appends_send appends_write
         split: json.splits)
    done
next
  assume a: "\<not> sublist ''/pages/'' u \<and> getitem object_schema ''confluence-page'' = Inr (JStr u)"
  then have pid: "page_id_of (JStr u) = Inl IndexError"
    using page_id_of_absent by blast
  from a have g: "getitem object_schema ''confluence-page'' = Inr (JStr u)" by simp
  show "download_current_confluence_page E cfg object_schema h = (Inl IndexError, h)"
    by (simp add: download_current_confluence_page_def g pid io_bind_def io_lift_def)
  show "update_confluence_page E cfg rendered_files object_schema h = (Inl IndexError, h)"
    by (simp add: update_confluence_page_def g pid io_bind_def io_lift_def)
qed

lemma sample_page_url:
  "''https://softwareone.atlassian.net/wiki/spaces/X/pages/12345/Foo''
     = ''https://softwareone.atlassian.net/wiki/spaces/X'' @ ''/pages/'' @ ''12345/Foo''"
  "\<not> sublist ''/pages/'' (''https://softwareone.atlassian.net/wiki/spaces/X'' @ ''/pages'')"
  "getitem (sample_schema JNull) ''confluence-page''
     = Inr (JStr ''https://softwareone.atlassian.net/wiki/spaces/X/pages/12345/Foo'')"
  "\<not> sublist ''/pages/'' ''https://softwareone.atlassian.net/wiki/display/X/Foo''"
  "getitem unpaged_schema ''confluence-page''
     = Inr (JStr ''https://softwareone.atlassian.net/wiki/display/X/Foo'')"
  by (simp_all add: str_contains_sublist [symmetric] sample_schema_def unpaged_schema_def)

theorem page_identifier_witness:
  "download_current_confluence_page wiki_env (Config ''t1'' ''t2'') (sample_schema JNull)
     = download_page wiki_env (Config ''t1'' ''t2'') ''12345'' \<and>
   update_confluence_page wiki_env (Config ''t1'' ''t2'') [] (sample_schema JNull)
     = publish_page wiki_env (Config ''t1'' ''t2'') ''12345'' [] (sample_schema JNull) \<and>
   download_current_confluence_page wiki_env (Config ''t1'' ''t2'') unpaged_schema []
     = (Inl IndexError, []) \<and>
   update_confluence_page wiki_env (Config ''t1'' ''t2'') [] unpaged_schema [] = (Inl IndexError, [])"
proof -
  have tw: "takeWhile (\<lambda>c. c \<noteq> CHR ''/'') ''12345/Foo'' = ''12345''"
    by simp
  note found = page_identifier
    [of "''https://softwareone.atlassian.net/wiki/spaces/X/pages/12345/Foo''"
        "''https://softwareone.atlassian.net/wiki/spaces/X''" "''12345/Foo''" "sample_schema JNull"
        wiki_env "Config ''t1'' ''t2''" "[]" "[]", THEN conjunct1, THEN mp,
     OF conjI [OF sample_page_url(1) conjI [OF sample_page_url(2) sample_page_url(3)]]]
  note absent = page_identifier
    [of "''https://softwareone.atlassian.net/wiki/display/X/Foo''" "[]" "[]" unpaged_schema
        wiki_env "Config ''t1'' ''t2''" "[]" "[]", THEN conjunct2, THEN mp,
     OF conjI [OF sample_page_url(4) sample_page_url(5)]]
  from found [THEN conjunct1] found [THEN conjunct2, THEN conjunct1] absent
  show ?thesis
    unfolding tw by (intro conjI) blast+
qed

end
